theory Spec2Isabelle
  imports Main
begin

section \<open>The draw-and-guess server: data model\<close>

text \<open>
  The theory embeds \<^verbatim>\<open>src/server.js\<close>: the class \<^verbatim>\<open>GameRoom\<close>, the helper
  \<^verbatim>\<open>getAvailableRooms\<close> and the socket handlers that call into a room.

  Participant and room identities are opaque strings in the source
  (\<^verbatim>\<open>'player_' + random\<close>, a UUID). They are never integer-like, so a JavaScript
  object keyed by them enumerates in insertion order; the model names them by natural
  numbers and keeps every keyed collection as a list in insertion order.
\<close>

type_synonym pid = nat
type_synonym rid = nat

datatype status = Waiting | Playing | Finished

text \<open>
  A JavaScript number that the code computes with integers. \<open>NaN\<close> arises from
  \<^verbatim>\<open>undefined + n\<close> (a score that was never initialised) and from \<^verbatim>\<open>n % 0\<close>
  (the drawer index on an empty roster).
\<close>

datatype jsnum = Num int | NaN

text \<open>An uncaught exception: the handler or timer callback is abandoned.\<close>

datatype error = TypeError | RoomFull

fun js_add :: "jsnum \<Rightarrow> int \<Rightarrow> jsnum" where
  "js_add (Num a) b = Num (a + b)"
| "js_add NaN b = NaN"

text \<open>
  The remainder operator \<^verbatim>\<open>a % n\<close> for an integer \<open>a\<close> and a collection size \<open>n\<close>:
  the result has the sign of the dividend, and \<^verbatim>\<open>a % 0\<close> is \<open>NaN\<close>.
\<close>

fun js_rem :: "jsnum \<Rightarrow> nat \<Rightarrow> jsnum" where
  "js_rem NaN n = NaN"
| "js_rem (Num a) n =
     (if n = 0 then NaN
      else if 0 \<le> a then Num (a mod int n)
      else Num (- ((- a) mod int n)))"

text \<open>
  Reading \<^verbatim>\<open>xs[i]\<close>: \<^verbatim>\<open>undefined\<close> (here \<open>None\<close>) when \<open>i\<close> is not an index of
  the array.
\<close>

fun js_index :: "'a list \<Rightarrow> jsnum \<Rightarrow> 'a option" where
  "js_index xs NaN = None"
| "js_index xs (Num i) = (if 0 \<le> i \<and> i < int (length xs) then Some (xs ! nat i) else None)"

fun js_ge :: "jsnum \<Rightarrow> int \<Rightarrow> bool" where
  "js_ge (Num a) b = (b \<le> a)"
| "js_ge NaN b = False"

text \<open>
  The object literal that \<^verbatim>\<open>startGame\<close> stores in \<^verbatim>\<open>this.gameState\<close>. The field
  \<^verbatim>\<open>startTime\<close> (a clock reading) is left out. \<open>None\<close> stands for \<^verbatim>\<open>null\<close> and
  \<^verbatim>\<open>undefined\<close>.
\<close>

record game_state =
  currentRound :: int
  currentPlayerIndex :: jsnum
  currentWord :: "string option"
  timer :: int
  scores :: "(pid \<times> jsnum) list"
  drawingPlayerId :: "pid option"
  usedWords :: "string option list"
  canvasData :: "string option"

text \<open>
  A \<^verbatim>\<open>GameRoom\<close> object. Its identity is the address under which the process keeps
  it; the display name, the creation time and \<^verbatim>\<open>hostPlayer\<close> (the roster entry of
  \<open>host\<close>) are left out, and \<^verbatim>\<open>maxPlayers\<close> is the constant 8. \<open>players\<close> holds the
  keys of the roster \<^verbatim>\<open>Map\<close> in insertion order; the participant objects carry a name
  and a socket, which every participant has from its creation, so that a broadcast
  reaches every roster member. \<open>timerInterval\<close> tells whether a countdown interval is armed:
  \<^verbatim>\<open>startTimer\<close> clears the previous interval before it arms a new one, so a room has
  at most one. \<open>pendingRounds\<close> counts the \<^verbatim>\<open>setTimeout\<close> continuations that were
  scheduled and have not fired yet; the source never cancels one.
\<close>

record room =
  language :: string
  players :: "pid list"
  host :: pid
  gameState :: "game_state option"
  status :: status
  timerInterval :: bool
  pendingRounds :: nat

datatype chat =
    Left_the_game pid
  | Is_now_the_host pid
  | Not_enough_players
  | Won_the_game pid jsnum
  | Player_message pid string

datatype event =
    Player_joined pid
  | Player_left pid pid
  | Chat_message chat
  | Game_started game_state
  | Game_reset
  | New_round "pid option" "string option"
  | Timer_update int
  | Round_ended "string option"
  | Correct_guess pid pid int int
  | Game_ended pid jsnum
  | Game_ended_early "pid option"
  | Canvas_updated "string option"
  | Room_list_updated "rid list"
  | Chat_history
  | Room_joined rid pid
  | Left_room
  | Error_message string

text \<open>
  Who receives an event: one roster member (\<^verbatim>\<open>player.socket.emit\<close>), every connected
  client (\<^verbatim>\<open>io.emit\<close>), or the socket whose handler is running (\<^verbatim>\<open>socket.emit\<close>).
\<close>

datatype target = ToPlayer pid | ToAll | ToCaller

record wordLists =
  en :: "string list"
  sv :: "string list"

text \<open>
  The process: the constant \<^verbatim>\<open>wordLists\<close> (the JSON files are not part of the
  sources, so their content is a parameter), the registry \<^verbatim>\<open>rooms\<close> (its keys in
  insertion order), the room objects themselves, addressed by their identity, and
  the log of everything sent so far, oldest first. A room object outlives its
  registration: timer callbacks keep a reference to it.

  The maps \<^verbatim>\<open>players\<close>, \<^verbatim>\<open>roomStatistics\<close> and \<^verbatim>\<open>roomChatHistory\<close> are only
  written, or read to fill a payload; no operation below branches on them and they
  are not modelled.
\<close>

record world =
  wordlists :: wordLists
  rooms :: "rid list"
  heap :: "rid \<Rightarrow> room"
  emitted :: "(target \<times> event) list"

definition emit :: "target \<Rightarrow> event \<Rightarrow> world \<Rightarrow> world" where
  "emit t e w = w\<lparr>emitted := emitted w @ [(t, e)]\<rparr>"

definition updRoom :: "rid \<Rightarrow> (room \<Rightarrow> room) \<Rightarrow> world \<Rightarrow> world" where
  "updRoom r f w = w\<lparr>heap := (heap w)(r := f (heap w r))\<rparr>"

definition broadcastToRoom :: "rid \<Rightarrow> event \<Rightarrow> pid option \<Rightarrow> world \<Rightarrow> world" where
  "broadcastToRoom r e excludePlayerId w =
     w\<lparr>emitted := emitted w @
          map (\<lambda>p. (ToPlayer p, e))
              (filter (\<lambda>p. Some p \<noteq> excludePlayerId) (players (heap w r)))\<rparr>"

section \<open>The room list and room teardown\<close>

text \<open>
  \<^verbatim>\<open>getAvailableRooms\<close> first walks the registry and calls \<^verbatim>\<open>cleanupRoom\<close> on every
  room whose roster is empty. \<^verbatim>\<open>cleanupRoom\<close> ends with
  \<^verbatim>\<open>broadcastGlobalRoomListUpdate\<close>, which calls \<^verbatim>\<open>getAvailableRooms\<close> again: the
  recursion is nested. \<open>sweepRooms ids w\<close> is that walk with \<open>ids\<close> still to visit;
  an entry deleted before the walk reaches it is skipped, as \<^verbatim>\<open>Map.forEach\<close> does.
\<close>

definition cleanupState :: "rid \<Rightarrow> world \<Rightarrow> world" where
  "cleanupState r w =
     (updRoom r (\<lambda>x. x\<lparr>timerInterval := False, players := [], gameState := None\<rparr>) w)
       \<lparr>rooms := removeAll r (rooms w)\<rparr>"

definition waitingRooms :: "world \<Rightarrow> rid list" where
  "waitingRooms w = filter (\<lambda>i. status (heap w i) = Waiting) (rooms w)"

function sweepRooms :: "rid list \<Rightarrow> world \<Rightarrow> world" where
  "sweepRooms [] w = w"
| "sweepRooms (i # ids) w =
     (if i \<in> set (rooms w) \<and> players (heap w i) = []
      then let w1 = cleanupState i w;
               w2 = sweepRooms (rooms w1) w1;
               w3 = emit ToAll (Room_list_updated (waitingRooms w2)) w2
           in sweepRooms ids w3
      else sweepRooms ids w)"
  by pat_completeness auto

lemma rooms_emit [simp]: "rooms (emit t e w) = rooms w"
  by (simp add: emit_def)

lemma heap_emit [simp]: "heap (emit t e w) = heap w"
  by (simp add: emit_def)

lemma rooms_cleanupState [simp]: "rooms (cleanupState r w) = removeAll r (rooms w)"
  by (simp add: cleanupState_def updRoom_def)

lemma sweepRooms_length:
  "sweepRooms_dom (ids, w) \<Longrightarrow> length (rooms (sweepRooms ids w)) \<le> length (rooms w)"
proof (induction ids w rule: sweepRooms.pinduct)
  case (1 w)
  then show ?case by (simp add: sweepRooms.psimps)
next
  case (2 i ids w)
  show ?case
  proof (cases "i \<in> set (rooms w) \<and> players (heap w i) = []")
    case True
    let ?w1 = "cleanupState i w"
    let ?w2 = "sweepRooms (rooms ?w1) ?w1"
    let ?w3 = "emit ToAll (Room_list_updated (waitingRooms ?w2)) ?w2"
    have "length (rooms (sweepRooms ids ?w3)) \<le> length (rooms ?w3)"
      using "2.IH"(2) [OF True refl refl refl] .
    also have "\<dots> = length (rooms ?w2)" by simp
    also have "\<dots> \<le> length (rooms ?w1)"
      using "2.IH"(1) [OF True refl] .
    also have "\<dots> \<le> length (rooms w)"
      by (simp add: length_removeAll_less_eq)
    finally show ?thesis
      using True "2.hyps" by (simp add: sweepRooms.psimps Let_def)
  next
    case False
    with 2 show ?thesis by (auto simp: sweepRooms.psimps)
  qed
qed

lemma sweepRooms_cleanup_less:
  assumes "sweepRooms_dom (removeAll i (rooms w), cleanupState i w)" and "i \<in> set (rooms w)"
  shows "length (rooms (sweepRooms (removeAll i (rooms w)) (cleanupState i w))) < length (rooms w)"
proof -
  have "length (rooms (sweepRooms (removeAll i (rooms w)) (cleanupState i w)))
      \<le> length (rooms (cleanupState i w))"
    using sweepRooms_length [OF assms(1)] .
  also have "\<dots> < length (rooms w)"
    using assms(2) by (simp add: length_removeAll_less)
  finally show ?thesis .
qed

termination sweepRooms
  by (relation "measures [\<lambda>(ids, w). length (rooms w), \<lambda>(ids, w). length ids]")
     (auto simp: length_removeAll_less sweepRooms_cleanup_less)

section \<open>Strings\<close>

text \<open>
  Strings are lists of 8-bit characters, read as ASCII text. \<open>toLowerCase\<close> maps the
  letters A to Z to a to z and \<open>trim\<close> removes the leading and trailing TAB, LF, VT,
  FF, CR and SPACE characters, as the JavaScript methods do on ASCII text; the
  characters beyond ASCII that the JavaScript methods also treat are left alone.
\<close>

definition toLowerChar :: "char \<Rightarrow> char" where
  "toLowerChar c =
     (let n = (of_char c :: nat) in if 65 \<le> n \<and> n \<le> 90 then char_of (n + 32) else c)"

definition toLowerCase :: "string \<Rightarrow> string" where
  "toLowerCase s = map toLowerChar s"

definition isWhiteSpace :: "char \<Rightarrow> bool" where
  "isWhiteSpace c = ((of_char c :: nat) \<in> {9, 10, 11, 12, 13, 32})"

definition trim :: "string \<Rightarrow> string" where
  "trim s = rev (dropWhile isWhiteSpace (rev (dropWhile isWhiteSpace s)))"

section \<open>Word selection\<close>

text \<open>
  \<^verbatim>\<open>wordLists[this.language] || wordLists['en']\<close>, for a language tag that is a key
  of the table or no property of the object at all.
\<close>

definition wordsFor :: "wordLists \<Rightarrow> string \<Rightarrow> string list" where
  "wordsFor wl lang =
     (if lang = ''en'' then en wl else if lang = ''sv'' then sv wl else en wl)"

text \<open>
  \<^verbatim>\<open>getRandomWord\<close> reads \<^verbatim>\<open>this.language\<close> and \<^verbatim>\<open>this.gameState\<close>, which its only
  caller has already dereferenced. The argument \<open>k\<close> is the value of
  \<^verbatim>\<open>Math.floor(Math.random() * availableWords.length)\<close>, an index of
  \<^verbatim>\<open>availableWords\<close> whenever that array is not empty.
\<close>

definition getRandomWord ::
  "wordLists \<Rightarrow> string \<Rightarrow> nat \<Rightarrow> game_state \<Rightarrow> string option \<times> game_state" where
  "getRandomWord wl lang k gs =
     (let words = wordsFor wl lang;
          availableWords = filter (\<lambda>word. Some word \<notin> set (usedWords gs)) words;
          gs1 = (if availableWords = [] then gs\<lparr>usedWords := []\<rparr> else gs);
          availableWords1 = (if availableWords = [] then words else availableWords);
          word = js_index availableWords1 (Num (int k))
      in (word, gs1\<lparr>usedWords := usedWords gs1 @ [word]\<rparr>))"

section \<open>The room\<close>

definition clearTimer :: "rid \<Rightarrow> world \<Rightarrow> world" where
  "clearTimer r w = updRoom r (\<lambda>x. x\<lparr>timerInterval := False\<rparr>) w"

definition scheduleNewRound :: "rid \<Rightarrow> world \<Rightarrow> world" where
  "scheduleNewRound r w = updRoom r (\<lambda>x. x\<lparr>pendingRounds := Suc (pendingRounds x)\<rparr>) w"

text \<open>The setter of \<^verbatim>\<open>status\<close>, without its bookkeeping of the statistics.\<close>

definition setStatus :: "rid \<Rightarrow> status \<Rightarrow> world \<Rightarrow> world" where
  "setStatus r newStatus w =
     (if status (heap w r) \<noteq> newStatus then updRoom r (\<lambda>x. x\<lparr>status := newStatus\<rparr>) w else w)"

definition getAvailableRooms :: "world \<Rightarrow> rid list \<times> world" where
  "getAvailableRooms w = (let w1 = sweepRooms (rooms w) w in (waitingRooms w1, w1))"

definition broadcastGlobalRoomListUpdate :: "world \<Rightarrow> world" where
  "broadcastGlobalRoomListUpdate w =
     (let (availableRooms, w1) = getAvailableRooms w
      in emit ToAll (Room_list_updated availableRooms) w1)"

definition cleanupRoom :: "rid \<Rightarrow> world \<Rightarrow> world" where
  "cleanupRoom r w = broadcastGlobalRoomListUpdate (cleanupState r w)"

definition addPlayer :: "rid \<Rightarrow> pid \<Rightarrow> world \<Rightarrow> error + world" where
  "addPlayer r p w =
     (if 8 \<le> length (players (heap w r)) then Inl RoomFull
      else Inr (broadcastToRoom r (Player_joined p) None
             (updRoom r (\<lambda>x. x\<lparr>players :=
                (if p \<in> set (players x) then players x else players x @ [p])\<rparr>) w)))"

definition endGameDueToInsufficientPlayers :: "rid \<Rightarrow> world \<Rightarrow> world" where
  "endGameDueToInsufficientPlayers r w =
     (let w1 = clearTimer r w;
          remainingPlayer = (case players (heap w1 r) of [p] \<Rightarrow> Some p | _ \<Rightarrow> None);
          w2 = broadcastToRoom r (Chat_message Not_enough_players) None w1;
          w3 = broadcastToRoom r (Game_ended_early remainingPlayer) None w2;
          w4 = setStatus r Finished w3;
          w5 = updRoom r (\<lambda>x. x\<lparr>gameState := None\<rparr>) w4
      in broadcastGlobalRoomListUpdate w5)"

definition removePlayer :: "rid \<Rightarrow> pid \<Rightarrow> world \<Rightarrow> world" where
  "removePlayer r playerId w =
     (if playerId \<in> set (players (heap w r)) then
        let w1 = updRoom r (\<lambda>x. x\<lparr>players := removeAll playerId (players x)\<rparr>) w;
            w2 = broadcastToRoom r (Chat_message (Left_the_game playerId)) None w1;
            w3 = (if host (heap w2 r) = playerId \<and> 0 < length (players (heap w2 r))
                  then let newHostId = hd (players (heap w2 r));
                           w' = updRoom r (\<lambda>x. x\<lparr>host := newHostId\<rparr>) w2
                       in broadcastToRoom r (Chat_message (Is_now_the_host newHostId)) None w'
                  else w2);
            w4 = broadcastToRoom r (Player_left playerId (host (heap w3 r))) None w3
        in if status (heap w4 r) = Playing \<and> length (players (heap w4 r)) \<le> 1
           then endGameDueToInsufficientPlayers r w4
           else if length (players (heap w4 r)) = 0 then cleanupRoom r w4
           else broadcastGlobalRoomListUpdate w4
      else w)"

definition startTimer :: "rid \<Rightarrow> world \<Rightarrow> world" where
  "startTimer r w = updRoom r (\<lambda>x. x\<lparr>timerInterval := True\<rparr>) (clearTimer r w)"

definition startNewRound :: "rid \<Rightarrow> nat \<Rightarrow> world \<Rightarrow> error + world" where
  "startNewRound r k w =
     (case gameState (heap w r) of
        None \<Rightarrow> Inl TypeError
      | Some gs \<Rightarrow>
          let idx = js_rem (js_add (currentPlayerIndex gs) 1) (length (players (heap w r)));
              playerIds = players (heap w r);
              drawer = js_index playerIds idx;
              gs1 = gs\<lparr>currentPlayerIndex := idx, drawingPlayerId := drawer\<rparr>;
              (word, gs2) = getRandomWord (wordlists w) (language (heap w r)) k gs1;
              gs3 = gs2\<lparr>currentWord := word, canvasData := None, timer := 60\<rparr>;
              w1 = updRoom r (\<lambda>x. x\<lparr>gameState := Some gs3\<rparr>) w;
              w2 = broadcastToRoom r (New_round drawer word) None w1
          in Inr (startTimer r w2))"

text \<open>
  The object that \<^verbatim>\<open>startGame\<close> stores in \<^verbatim>\<open>this.gameState\<close>: the literal, with
  the score \<open>0\<close> that the loop over the roster enters for every member.
\<close>

definition newGameState :: "pid list \<Rightarrow> game_state" where
  "newGameState playerIds =
     \<lparr>currentRound = 0, currentPlayerIndex = Num (- 1), currentWord = Some [],
      timer = 60, scores = map (\<lambda>p. (p, Num 0)) playerIds,
      drawingPlayerId = None, usedWords = [], canvasData = None\<rparr>"

definition startGame :: "rid \<Rightarrow> nat \<Rightarrow> world \<Rightarrow> error + bool \<times> world" where
  "startGame r k w =
     (if status (heap w r) \<noteq> Waiting \<or> length (players (heap w r)) < 2 then Inr (False, w)
      else
        let w1 = setStatus r Playing w;
            gs = newGameState (players (heap w1 r));
            w2 = updRoom r (\<lambda>x. x\<lparr>gameState := Some gs\<rparr>) w1;
            w3 = broadcastToRoom r (Game_started gs) None w2
        in case startNewRound r k w3 of
             Inl e \<Rightarrow> Inl e
           | Inr w4 \<Rightarrow> Inr (True, broadcastGlobalRoomListUpdate w4))"

definition resetGame :: "rid \<Rightarrow> world \<Rightarrow> world" where
  "resetGame r w =
     (let w1 = setStatus r Waiting w;
          w2 = updRoom r (\<lambda>x. x\<lparr>gameState := None\<rparr>) w1;
          w3 = broadcastToRoom r Game_reset None w2
      in broadcastGlobalRoomListUpdate w3)"

definition endRound :: "rid \<Rightarrow> world \<Rightarrow> error + world" where
  "endRound r w =
     (case gameState (heap w r) of
        None \<Rightarrow> Inl TypeError
      | Some gs \<Rightarrow>
          Inr (scheduleNewRound r (broadcastToRoom r (Round_ended (currentWord gs)) None w)))"

text \<open>
  The callback that \<^verbatim>\<open>startTimer\<close> hands to \<^verbatim>\<open>setInterval\<close>; it runs only while
  the interval is armed.
\<close>

definition timerTick :: "rid \<Rightarrow> world \<Rightarrow> error + world" where
  "timerTick r w =
     (if \<not> timerInterval (heap w r) then Inr w
      else case gameState (heap w r) of
        None \<Rightarrow> Inr (clearTimer r w)
      | Some gs \<Rightarrow>
          if status (heap w r) \<noteq> Playing then Inr (clearTimer r w)
          else
            let gs1 = gs\<lparr>timer := timer gs - 1\<rparr>;
                w1 = updRoom r (\<lambda>x. x\<lparr>gameState := Some gs1\<rparr>) w;
                w2 = broadcastToRoom r (Timer_update (timer gs1)) None w1
            in if timer gs1 \<le> 0 then endRound r (clearTimer r w2) else Inr w2)"

text \<open>
  The callback that \<^verbatim>\<open>endRound\<close> and \<^verbatim>\<open>handleGuess\<close> hand to \<^verbatim>\<open>setTimeout\<close>:
  \<^verbatim>\<open>() => { this.startNewRound(); }\<close>. It runs once for each scheduled continuation.
\<close>

definition roundTimeout :: "rid \<Rightarrow> nat \<Rightarrow> world \<Rightarrow> error + world" where
  "roundTimeout r k w =
     (if pendingRounds (heap w r) = 0 then Inr w
      else startNewRound r k (updRoom r (\<lambda>x. x\<lparr>pendingRounds := pendingRounds x - 1\<rparr>) w))"

text \<open>\<^verbatim>\<open>scores[id] += points\<close> on the score object.\<close>

fun addScore :: "pid \<Rightarrow> int \<Rightarrow> (pid \<times> jsnum) list \<Rightarrow> (pid \<times> jsnum) list" where
  "addScore p n [] = [(p, NaN)]"
| "addScore p n ((q, s) # rest) =
     (if p = q then (q, js_add s n) # rest else (q, s) # addScore p n rest)"

definition checkForWinner :: "rid \<Rightarrow> world \<Rightarrow> error + world" where
  "checkForWinner r w =
     (case gameState (heap w r) of
        None \<Rightarrow> Inl TypeError
      | Some gs \<Rightarrow>
          let w1 = (case find (\<lambda>(playerId, score). js_ge score 1000) (scores gs) of
                      None \<Rightarrow> w
                    | Some (playerId, score) \<Rightarrow>
                        if playerId \<in> set (players (heap w r)) then
                          let v1 = broadcastToRoom r (Game_ended playerId score) None w;
                              v2 = setStatus r Finished v1;
                              v3 = clearTimer r v2;
                              v4 = broadcastGlobalRoomListUpdate v3
                          in broadcastToRoom r (Chat_message (Won_the_game playerId score)) None v4
                        else w)
          in Inr (if status (heap w1 r) = Playing \<and> length (players (heap w1 r)) \<le> 1
                  then endGameDueToInsufficientPlayers r w1 else w1))"

definition handleGuess :: "rid \<Rightarrow> pid \<Rightarrow> string \<Rightarrow> world \<Rightarrow> error + world" where
  "handleGuess r playerId guess w =
     (if status (heap w r) \<noteq> Playing then Inr w
      else case gameState (heap w r) of
        None \<Rightarrow> Inl TypeError
      | Some gs \<Rightarrow>
          if Some playerId = drawingPlayerId gs then Inr w
          else case currentWord gs of
            None \<Rightarrow> Inl TypeError
          | Some word \<Rightarrow>
              let guessLower = trim (toLowerCase guess);
                  wordLower = toLowerCase word
              in if guessLower = wordLower then
                   case drawingPlayerId gs of
                     None \<Rightarrow> Inr w
                   | Some drawer \<Rightarrow>
                       if drawer \<notin> set (players (heap w r)) \<or> playerId \<notin> set (players (heap w r))
                       then Inr w
                       else
                         let timeBonus = (timer gs div 10) * 10;
                             drawingPlayerPoints = 40 + timeBonus;
                             guessingPlayerPoints = 30 + timeBonus;
                             gs1 = gs\<lparr>scores := addScore playerId guessingPlayerPoints
                                      (addScore drawer drawingPlayerPoints (scores gs))\<rparr>;
                             w1 = updRoom r (\<lambda>x. x\<lparr>gameState := Some gs1\<rparr>) w;
                             w2 = broadcastToRoom r
                                    (Correct_guess playerId drawer guessingPlayerPoints
                                       drawingPlayerPoints) None w1
                         in case checkForWinner r w2 of
                              Inl e \<Rightarrow> Inl e
                            | Inr w3 \<Rightarrow> Inr (scheduleNewRound r (clearTimer r w3))
                 else Inr w)"

definition updateCanvas :: "rid \<Rightarrow> string option \<Rightarrow> world \<Rightarrow> world" where
  "updateCanvas r data w =
     (case gameState (heap w r) of
        None \<Rightarrow> w
      | Some gs \<Rightarrow>
          broadcastToRoom r (Canvas_updated data) (drawingPlayerId gs)
            (updRoom r (\<lambda>x. x\<lparr>gameState := Some (gs\<lparr>canvasData := data\<rparr>)\<rparr>) w))"

section \<open>The socket handlers\<close>

text \<open>
  Every connection keeps a variable \<^verbatim>\<open>currentPlayer\<close>: \<^verbatim>\<open>null\<close>, or the participant
  object that the connection created, with its identity and the identity of the room
  it was put in. A handler receives it as an argument.
\<close>

record player =
  player_id :: pid
  player_room :: rid

definition handleJoinRoom :: "rid option \<Rightarrow> string \<Rightarrow> pid \<Rightarrow> world \<Rightarrow> world" where
  "handleJoinRoom roomId playerName newId w =
     (case roomId of
        None \<Rightarrow> emit ToCaller (Error_message ''Room ID and player name are required'') w
      | Some r \<Rightarrow>
          if playerName = [] then
            emit ToCaller (Error_message ''Room ID and player name are required'') w
          else if r \<notin> set (rooms w) then emit ToCaller (Error_message ''Room not found'') w
          else if status (heap w r) \<noteq> Waiting then
            emit ToCaller (Error_message ''Game has already started'') w
          else case addPlayer r newId w of
                 Inl e \<Rightarrow> emit ToCaller (Error_message ''Room is full'') w
               | Inr w1 \<Rightarrow>
                   broadcastGlobalRoomListUpdate
                     (emit ToCaller (Room_joined r newId) (emit ToCaller Chat_history w1)))"

definition handleStartGame :: "player option \<Rightarrow> nat \<Rightarrow> world \<Rightarrow> error + world" where
  "handleStartGame currentPlayer k w =
     (case currentPlayer of
        None \<Rightarrow> Inr w
      | Some cp \<Rightarrow>
          if player_room cp \<notin> set (rooms w) then
            Inr (emit ToCaller (Error_message ''Not in a room'') w)
          else if host (heap w (player_room cp)) \<noteq> player_id cp then
            Inr (emit ToCaller (Error_message ''Only the host can start the game'') w)
          else case startGame (player_room cp) k w of
                 Inl e \<Rightarrow> Inl e
               | Inr (success, w1) \<Rightarrow>
                   if \<not> success then
                     Inr (emit ToCaller (Error_message ''At least 2 players needed to start'') w1)
                   else Inr w1)"

definition handleResetGame :: "player option \<Rightarrow> world \<Rightarrow> world" where
  "handleResetGame currentPlayer w =
     (case currentPlayer of
        None \<Rightarrow> w
      | Some cp \<Rightarrow>
          if player_room cp \<notin> set (rooms w) \<or> host (heap w (player_room cp)) \<noteq> player_id cp
          then emit ToCaller (Error_message ''Only the host can reset the game'') w
          else resetGame (player_room cp) w)"

definition handleSendMessage :: "player option \<Rightarrow> string \<Rightarrow> world \<Rightarrow> error + world" where
  "handleSendMessage currentPlayer message w =
     (case currentPlayer of
        None \<Rightarrow> Inr w
      | Some cp \<Rightarrow>
          if player_room cp \<notin> set (rooms w) then Inr w
          else
            let r = player_room cp;
                w1 = broadcastToRoom r (Chat_message (Player_message (player_id cp) message)) None w
            in if status (heap w1 r) = Playing
               then case gameState (heap w1 r) of
                      None \<Rightarrow> Inl TypeError
                    | Some gs \<Rightarrow>
                        if Some (player_id cp) \<noteq> drawingPlayerId gs
                        then handleGuess r (player_id cp) message w1 else Inr w1
               else Inr w1)"

definition handleUpdateCanvas :: "player option \<Rightarrow> string option \<Rightarrow> world \<Rightarrow> error + world" where
  "handleUpdateCanvas currentPlayer data w =
     (case currentPlayer of
        None \<Rightarrow> Inr w
      | Some cp \<Rightarrow>
          if player_room cp \<in> set (rooms w) \<and> status (heap w (player_room cp)) = Playing
          then case gameState (heap w (player_room cp)) of
                 None \<Rightarrow> Inl TypeError
               | Some gs \<Rightarrow>
                   if Some (player_id cp) = drawingPlayerId gs
                   then Inr (updateCanvas (player_room cp) data w) else Inr w
          else Inr w)"

definition handleClearCanvas :: "player option \<Rightarrow> world \<Rightarrow> error + world" where
  "handleClearCanvas currentPlayer w = handleUpdateCanvas currentPlayer None w"

definition handleGetRooms :: "world \<Rightarrow> world" where
  "handleGetRooms w =
     (let (availableRooms, w1) = getAvailableRooms w
      in emit ToCaller (Room_list_updated availableRooms) w1)"

definition handleLeaveRoom :: "player option \<Rightarrow> world \<Rightarrow> world" where
  "handleLeaveRoom currentPlayer w =
     (case currentPlayer of
        None \<Rightarrow> w
      | Some cp \<Rightarrow>
          emit ToCaller Left_room
            (if player_room cp \<in> set (rooms w)
             then removePlayer (player_room cp) (player_id cp) w else w))"

definition handleDisconnect :: "player option \<Rightarrow> world \<Rightarrow> world" where
  "handleDisconnect currentPlayer w =
     (case currentPlayer of
        None \<Rightarrow> w
      | Some cp \<Rightarrow>
          if player_room cp \<in> set (rooms w)
          then removePlayer (player_room cp) (player_id cp) w else w)"

section \<open>Runs of the server\<close>

text \<open>
  One reaction of the process to an event: a message from a connection, with that
  connection's \<^verbatim>\<open>currentPlayer\<close>, a tick of a room's countdown, or a delayed
  continuation coming due. Creating a room allocates a new room object and is not a
  step on the existing ones.
\<close>

datatype op =
    JoinRoom "rid option" string pid
  | StartGame "player option" nat
  | ResetGame "player option"
  | SendMessage "player option" string
  | UpdateCanvas "player option" "string option"
  | ClearCanvas "player option"
  | GetRooms
  | LeaveRoom "player option"
  | Disconnect "player option"
  | Tick rid
  | Timeout rid nat

fun step :: "op \<Rightarrow> world \<Rightarrow> error + world" where
  "step (JoinRoom roomId playerName newId) w = Inr (handleJoinRoom roomId playerName newId w)"
| "step (StartGame cp k) w = handleStartGame cp k w"
| "step (ResetGame cp) w = Inr (handleResetGame cp w)"
| "step (SendMessage cp message) w = handleSendMessage cp message w"
| "step (UpdateCanvas cp data) w = handleUpdateCanvas cp data w"
| "step (ClearCanvas cp) w = handleClearCanvas cp w"
| "step GetRooms w = Inr (handleGetRooms w)"
| "step (LeaveRoom cp) w = Inr (handleLeaveRoom cp w)"
| "step (Disconnect cp) w = Inr (handleDisconnect cp w)"
| "step (Tick r) w = timerTick r w"
| "step (Timeout r k) w = roundTimeout r k w"



section \<open>Auxiliary notions and example states\<close>

text \<open>What the sweep does to a room object: nothing, or the teardown of an empty room.\<close>

definition tornDown :: "room \<Rightarrow> room" where
  "tornDown x = x\<lparr>timerInterval := False, players := [], gameState := None\<rparr>"



text \<open>
  Every room is registered with its creator on the roster, and every reaction of the
  server keeps the registry free of rooms without members.
\<close>

definition registryInvariant :: "world \<Rightarrow> bool" where
  "registryInvariant w = list_all (\<lambda>i. players (heap w i) \<noteq> []) (rooms w)"

text \<open>
  A room that is waiting has no Round, and in a Round every roster member has a
  numeric score: \<^verbatim>\<open>startGame\<close> enters one for every member, and members are added
  only while the room is waiting.
\<close>

definition roomOK :: "room \<Rightarrow> bool" where
  "roomOK x =
     ((status x = Waiting \<longrightarrow> gameState x = None) \<and>
      (\<forall>gs. gameState x = Some gs \<longrightarrow>
         list_all (\<lambda>p. \<exists>a. map_of (scores gs) p = Some (Num a)) (players x)))"

definition scoresInvariant :: "world \<Rightarrow> bool" where
  "scoresInvariant w = (\<forall>i. roomOK (heap w i))"

definition exampleWords :: wordLists where
  "exampleWords = \<lparr>en = [''cat'', ''dog''], sv = [''katt'']\<rparr>"

definition emptyRoom :: room where
  "emptyRoom = \<lparr>language = ''en'', players = [], host = 0, gameState = None,
     status = Waiting, timerInterval = False, pendingRounds = 0\<rparr>"

definition exampleRound :: game_state where
  "exampleRound = \<lparr>currentRound = 0, currentPlayerIndex = Num 0, currentWord = Some ''cat'',
     timer = 25, scores = [(10, Num 930), (11, Num 950)], drawingPlayerId = Some 10,
     usedWords = [Some ''cat''], canvasData = None\<rparr>"

definition exampleRoom :: room where
  "exampleRoom = \<lparr>language = ''en'', players = [10, 11], host = 10,
     gameState = Some exampleRound, status = Playing, timerInterval = True,
     pendingRounds = 0\<rparr>"

definition exampleWorld :: world where
  "exampleWorld = \<lparr>wordlists = exampleWords, rooms = [1],
     heap = (\<lambda>_. emptyRoom)(1 := exampleRoom), emitted = []\<rparr>"

definition exampleLobby :: world where
  "exampleLobby = \<lparr>wordlists = exampleWords, rooms = [1],
     heap = (\<lambda>_. emptyRoom)(1 := exampleRoom\<lparr>gameState := None, status := Waiting,
       timerInterval := False\<rparr>), emitted = []\<rparr>"

definition exampleTrio :: world where
  "exampleTrio = \<lparr>wordlists = exampleWords, rooms = [1],
     heap = (\<lambda>_. emptyRoom)(1 := exampleRoom\<lparr>players := [10, 11, 12],
       gameState := Some (exampleRound\<lparr>scores := [(10, Num 0), (11, Num 0), (12, Num 0)]\<rparr>)\<rparr>),
     emitted = []\<rparr>"

definition exampleLastSecond :: world where
  "exampleLastSecond = \<lparr>wordlists = exampleWords, rooms = [1],
     heap = (\<lambda>_. emptyRoom)(1 := exampleRoom\<lparr>gameState := Some (exampleRound\<lparr>timer := 1\<rparr>)\<rparr>),
     emitted = []\<rparr>"

definition exampleSpaced :: world where
  "exampleSpaced = \<lparr>wordlists = \<lparr>en = ['' cat'', ''dog''], sv = []\<rparr>, rooms = [1],
     heap = (\<lambda>_. emptyRoom)(1 := exampleRoom\<lparr>gameState :=
       Some (exampleRound\<lparr>currentWord := Some '' cat'', usedWords := [Some '' cat'']\<rparr>)\<rparr>),
     emitted = []\<rparr>"

definition examplePlayer :: "pid \<Rightarrow> player" where
  "examplePlayer p = \<lparr>player_id = p, player_room = 1\<rparr>"

text \<open>Runs from the example states.\<close>

abbreviation winningGuess :: op where
  "winningGuess \<equiv> SendMessage (Some (examplePlayer 11)) '' Cat ''"

abbreviation afterWinningGuess :: world where
  "afterWinningGuess \<equiv> projr (step winningGuess exampleWorld)"

abbreviation afterLastTick :: world where
  "afterLastTick \<equiv> projr (step (Tick 1) exampleLastSecond)"

abbreviation afterReset :: world where
  "afterReset \<equiv> projr (step (ResetGame (Some (examplePlayer 10))) afterLastTick)"


abbreviation afterGameEndedEarly :: world where
  "afterGameEndedEarly \<equiv> removePlayer 1 11 exampleWorld"

lemma wordlists_emit [simp]: "wordlists (emit t e w) = wordlists w"
  by (simp add: emit_def)

lemma emitted_emit [simp]: "emitted (emit t e w) = emitted w @ [(t, e)]"
  by (simp add: emit_def)

lemma rooms_updRoom [simp]: "rooms (updRoom r f w) = rooms w"
  by (simp add: updRoom_def)

lemma heap_updRoom [simp]: "heap (updRoom r f w) = (heap w)(r := f (heap w r))"
  by (simp add: updRoom_def)

lemma wordlists_updRoom [simp]: "wordlists (updRoom r f w) = wordlists w"
  by (simp add: updRoom_def)

lemma emitted_updRoom [simp]: "emitted (updRoom r f w) = emitted w"
  by (simp add: updRoom_def)

lemma rooms_broadcastToRoom [simp]: "rooms (broadcastToRoom r e x w) = rooms w"
  by (simp add: broadcastToRoom_def)

lemma heap_broadcastToRoom [simp]: "heap (broadcastToRoom r e x w) = heap w"
  by (simp add: broadcastToRoom_def)

lemma wordlists_broadcastToRoom [simp]: "wordlists (broadcastToRoom r e x w) = wordlists w"
  by (simp add: broadcastToRoom_def)

lemma heap_cleanupState [simp]:
  "heap (cleanupState r w) =
     (heap w)(r := (heap w r)\<lparr>timerInterval := False, players := [], gameState := None\<rparr>)"
  by (simp add: cleanupState_def)

lemma wordlists_cleanupState [simp]: "wordlists (cleanupState r w) = wordlists w"
  by (simp add: cleanupState_def)

lemma emitted_cleanupState [simp]: "emitted (cleanupState r w) = emitted w"
  by (simp add: cleanupState_def)

lemma sweepRooms_heap:
  "heap (sweepRooms ids w) i = heap w i \<or>
   (players (heap w i) = [] \<and> heap (sweepRooms ids w) i = tornDown (heap w i))"
proof (induction ids w rule: sweepRooms.induct)
  case (1 w)
  then show ?case by simp
next
  case (2 j ids w)
  show ?case
  proof (cases "j \<in> set (rooms w) \<and> players (heap w j) = []")
    case True
    let ?w1 = "cleanupState j w"
    let ?w2 = "sweepRooms (rooms ?w1) ?w1"
    let ?w3 = "emit ToAll (Room_list_updated (waitingRooms ?w2)) ?w2"
    have eq: "sweepRooms (j # ids) w = sweepRooms ids ?w3"
      using True by (simp add: Let_def)
    have a: "heap ?w1 i = heap w i \<or> (players (heap w i) = [] \<and> heap ?w1 i = tornDown (heap w i))"
      using True by (auto simp: tornDown_def)
    have b: "heap ?w2 i = heap ?w1 i \<or> (players (heap ?w1 i) = [] \<and> heap ?w2 i = tornDown (heap ?w1 i))"
      using "2.IH"(1) [OF True refl] .
    have c: "heap (sweepRooms ids ?w3) i = heap ?w3 i \<or>
        (players (heap ?w3 i) = [] \<and> heap (sweepRooms ids ?w3) i = tornDown (heap ?w3 i))"
      using "2.IH"(2) [OF True refl refl refl] .
    have t: "\<And>x. tornDown (tornDown x) = tornDown x" "\<And>x. players (tornDown x) = []"
      by (simp_all add: tornDown_def)
    from a b c show ?thesis
      unfolding eq by (auto simp: t)
  next
    case False
    then have "sweepRooms (j # ids) w = sweepRooms ids w" by auto
    with "2.IH"(3) [OF False] show ?thesis by simp
  qed
qed

lemma sweepRooms_rooms: "set (rooms (sweepRooms ids w)) \<subseteq> set (rooms w)"
proof (induction ids w rule: sweepRooms.induct)
  case (1 w)
  then show ?case by simp
next
  case (2 j ids w)
  show ?case
  proof (cases "j \<in> set (rooms w) \<and> players (heap w j) = []")
    case True
    let ?w1 = "cleanupState j w"
    let ?w2 = "sweepRooms (rooms ?w1) ?w1"
    let ?w3 = "emit ToAll (Room_list_updated (waitingRooms ?w2)) ?w2"
    have eq: "sweepRooms (j # ids) w = sweepRooms ids ?w3"
      using True by (simp add: Let_def)
    have "set (rooms (sweepRooms ids ?w3)) \<subseteq> set (rooms ?w3)"
      using "2.IH"(2) [OF True refl refl refl] .
    moreover have "set (rooms ?w2) \<subseteq> set (rooms ?w1)"
      using "2.IH"(1) [OF True refl] .
    ultimately show ?thesis unfolding eq by auto
  next
    case False
    then have "sweepRooms (j # ids) w = sweepRooms ids w" by auto
    with "2.IH"(3) [OF False] show ?thesis by simp
  qed
qed

lemma sweepRooms_wordlists: "wordlists (sweepRooms ids w) = wordlists w"
proof (induction ids w rule: sweepRooms.induct)
  case (1 w)
  then show ?case by simp
next
  case (2 j ids w)
  show ?case
  proof (cases "j \<in> set (rooms w) \<and> players (heap w j) = []")
    case True
    with "2.IH"(1) [OF True refl] "2.IH"(2) [OF True refl refl refl] show ?thesis
      by (simp add: Let_def)
  next
    case False
    then have "sweepRooms (j # ids) w = sweepRooms ids w" by auto
    with "2.IH"(3) [OF False] show ?thesis by simp
  qed
qed

text \<open>After the sweep no room that it visited is registered with an empty roster.\<close>

lemma sweepRooms_no_empty:
  "i \<in> set ids \<Longrightarrow> i \<in> set (rooms (sweepRooms ids w)) \<Longrightarrow> players (heap w i) \<noteq> []"
proof (induction ids w rule: sweepRooms.induct)
  case (1 w)
  then show ?case by simp
next
  case (2 j ids w)
  show ?case
  proof (cases "j \<in> set (rooms w) \<and> players (heap w j) = []")
    case True
    let ?w1 = "cleanupState j w"
    let ?w2 = "sweepRooms (rooms ?w1) ?w1"
    let ?w3 = "emit ToAll (Room_list_updated (waitingRooms ?w2)) ?w2"
    have eq: "sweepRooms (j # ids) w = sweepRooms ids ?w3"
      using True by (simp add: Let_def)
    have in3: "i \<in> set (rooms (sweepRooms ids ?w3))"
      using "2.prems"(2) unfolding eq .
    have sub3: "set (rooms (sweepRooms ids ?w3)) \<subseteq> set (rooms ?w3)"
      by (rule sweepRooms_rooms)
    have sub2: "set (rooms ?w2) \<subseteq> set (rooms ?w1)"
      by (rule sweepRooms_rooms)
    from in3 sub3 have i2: "i \<in> set (rooms ?w2)" by auto
    with sub2 have i1: "i \<in> set (rooms ?w1)" by auto
    then have ij: "i \<noteq> j" by auto
    have "players (heap ?w1 i) \<noteq> []"
      using "2.IH"(1) [OF True refl i1 i2] .
    with ij show ?thesis by simp
  next
    case False
    then have eq: "sweepRooms (j # ids) w = sweepRooms ids w" by auto
    show ?thesis
    proof (cases "i = j")
      case True
      have "set (rooms (sweepRooms ids w)) \<subseteq> set (rooms w)" by (rule sweepRooms_rooms)
      with "2.prems"(2) eq have "j \<in> set (rooms w)" using True by auto
      with False True show ?thesis by auto
    next
      case ne: False
      with "2.prems"(1) have "i \<in> set ids" by simp
      moreover from "2.prems"(2) eq have "i \<in> set (rooms (sweepRooms ids w))" by simp
      ultimately show ?thesis using "2.IH"(3) [OF False] by simp
    qed
  qed
qed

lemma emitted_broadcastToRoom [simp]:
  "emitted (broadcastToRoom r e x w) =
     emitted w @ map (\<lambda>p. (ToPlayer p, e)) (filter (\<lambda>p. Some p \<noteq> x) (players (heap w r)))"
  by (simp add: broadcastToRoom_def)

lemma rooms_clearTimer [simp]: "rooms (clearTimer r w) = rooms w"
  by (simp add: clearTimer_def)

lemma heap_clearTimer [simp]:
  "heap (clearTimer r w) = (heap w)(r := (heap w r)\<lparr>timerInterval := False\<rparr>)"
  by (simp add: clearTimer_def)

lemma wordlists_clearTimer [simp]: "wordlists (clearTimer r w) = wordlists w"
  by (simp add: clearTimer_def)

lemma emitted_clearTimer [simp]: "emitted (clearTimer r w) = emitted w"
  by (simp add: clearTimer_def)

lemma rooms_scheduleNewRound [simp]: "rooms (scheduleNewRound r w) = rooms w"
  by (simp add: scheduleNewRound_def)

lemma heap_scheduleNewRound [simp]:
  "heap (scheduleNewRound r w) =
     (heap w)(r := (heap w r)\<lparr>pendingRounds := Suc (pendingRounds (heap w r))\<rparr>)"
  by (simp add: scheduleNewRound_def)

lemma wordlists_scheduleNewRound [simp]: "wordlists (scheduleNewRound r w) = wordlists w"
  by (simp add: scheduleNewRound_def)

lemma emitted_scheduleNewRound [simp]: "emitted (scheduleNewRound r w) = emitted w"
  by (simp add: scheduleNewRound_def)

lemma rooms_setStatus [simp]: "rooms (setStatus r s w) = rooms w"
  by (simp add: setStatus_def)

lemma heap_setStatus [simp]: "heap (setStatus r s w) = (heap w)(r := (heap w r)\<lparr>status := s\<rparr>)"
  by (auto simp: setStatus_def)

lemma wordlists_setStatus [simp]: "wordlists (setStatus r s w) = wordlists w"
  by (simp add: setStatus_def)

lemma emitted_setStatus [simp]: "emitted (setStatus r s w) = emitted w"
  by (simp add: setStatus_def)

lemma rooms_startTimer [simp]: "rooms (startTimer r w) = rooms w"
  by (simp add: startTimer_def)

lemma heap_startTimer [simp]:
  "heap (startTimer r w) = (heap w)(r := (heap w r)\<lparr>timerInterval := True\<rparr>)"
  by (simp add: startTimer_def)

lemma wordlists_startTimer [simp]: "wordlists (startTimer r w) = wordlists w"
  by (simp add: startTimer_def)

lemma emitted_startTimer [simp]: "emitted (startTimer r w) = emitted w"
  by (simp add: startTimer_def)

subsection \<open>The global room-list broadcast\<close>

lemma heap_broadcastGlobal:
  "heap (broadcastGlobalRoomListUpdate w) = heap (sweepRooms (rooms w) w)"
  by (simp add: broadcastGlobalRoomListUpdate_def getAvailableRooms_def Let_def)

lemma rooms_broadcastGlobal:
  "rooms (broadcastGlobalRoomListUpdate w) = rooms (sweepRooms (rooms w) w)"
  by (simp add: broadcastGlobalRoomListUpdate_def getAvailableRooms_def Let_def)

lemma wordlists_broadcastGlobal [simp]:
  "wordlists (broadcastGlobalRoomListUpdate w) = wordlists w"
  by (simp add: broadcastGlobalRoomListUpdate_def getAvailableRooms_def Let_def
      sweepRooms_wordlists)

lemma broadcastGlobal_heap:
  "heap (broadcastGlobalRoomListUpdate w) i = heap w i \<or>
   (players (heap w i) = [] \<and> heap (broadcastGlobalRoomListUpdate w) i = tornDown (heap w i))"
  unfolding heap_broadcastGlobal by (rule sweepRooms_heap)

lemma broadcastGlobal_rooms:
  "set (rooms (broadcastGlobalRoomListUpdate w)) \<subseteq> set (rooms w)"
  unfolding rooms_broadcastGlobal by (rule sweepRooms_rooms)

lemma broadcastGlobal_no_empty:
  assumes "i \<in> set (rooms (broadcastGlobalRoomListUpdate w))"
  shows "players (heap w i) \<noteq> []"
proof -
  from assms have a: "i \<in> set (rooms (sweepRooms (rooms w) w))"
    by (simp add: rooms_broadcastGlobal)
  with sweepRooms_rooms [of "rooms w" w] have "i \<in> set (rooms w)" by auto
  then show ?thesis using a by (rule sweepRooms_no_empty)
qed

lemma status_broadcastGlobal [simp]:
  "status (heap (broadcastGlobalRoomListUpdate w) i) = status (heap w i)"
  using broadcastGlobal_heap [of w i] by (auto simp: tornDown_def)

lemma players_broadcastGlobal [simp]:
  "players (heap (broadcastGlobalRoomListUpdate w) i) = players (heap w i)"
  using broadcastGlobal_heap [of w i] by (auto simp: tornDown_def)

lemma host_broadcastGlobal [simp]:
  "host (heap (broadcastGlobalRoomListUpdate w) i) = host (heap w i)"
  using broadcastGlobal_heap [of w i] by (auto simp: tornDown_def)

lemma pendingRounds_broadcastGlobal [simp]:
  "pendingRounds (heap (broadcastGlobalRoomListUpdate w) i) = pendingRounds (heap w i)"
  using broadcastGlobal_heap [of w i] by (auto simp: tornDown_def)

lemma language_broadcastGlobal [simp]:
  "language (heap (broadcastGlobalRoomListUpdate w) i) = language (heap w i)"
  using broadcastGlobal_heap [of w i] by (auto simp: tornDown_def)

lemma broadcastGlobal_nonempty [simp]:
  "players (heap w i) \<noteq> [] \<Longrightarrow> heap (broadcastGlobalRoomListUpdate w) i = heap w i"
  using broadcastGlobal_heap [of w i] by auto

subsection \<open>Leaving a room\<close>

lemma players_endGame [simp]:
  "players (heap (endGameDueToInsufficientPlayers r w) i) = players (heap w i)"
  by (simp add: endGameDueToInsufficientPlayers_def Let_def)

lemma endGame_no_empty:
  assumes "i \<in> set (rooms (endGameDueToInsufficientPlayers r w))"
  shows "players (heap w i) \<noteq> []"
proof -
  define w5 where "w5 = updRoom r (\<lambda>x. x\<lparr>gameState := None\<rparr>)
    (setStatus r Finished
      (broadcastToRoom r (Game_ended_early (case players (heap (clearTimer r w) r) of
          [p] \<Rightarrow> Some p | _ \<Rightarrow> None)) None
        (broadcastToRoom r (Chat_message Not_enough_players) None (clearTimer r w))))"
  have e: "endGameDueToInsufficientPlayers r w = broadcastGlobalRoomListUpdate w5"
    by (simp add: endGameDueToInsufficientPlayers_def Let_def w5_def)
  have "players (heap w5 i) \<noteq> []"
    using assms unfolding e by (rule broadcastGlobal_no_empty)
  then show ?thesis by (simp add: w5_def split: if_splits)
qed

lemma removePlayer_no_empty:
  assumes "p \<in> set (players (heap w r))"
    and "i \<in> set (rooms (removePlayer r p w))"
  shows "players (heap (removePlayer r p w) i) \<noteq> []"
  using assms
  by (auto simp: removePlayer_def Let_def cleanupRoom_def
      dest!: broadcastGlobal_no_empty endGame_no_empty split: if_splits)

lemma status_endGame [simp]:
  "status (heap (endGameDueToInsufficientPlayers r w) i) =
     (if i = r then Finished else status (heap w i))"
  by (simp add: endGameDueToInsufficientPlayers_def Let_def)

lemma status_cleanupRoom [simp]: "status (heap (cleanupRoom r w) i) = status (heap w i)"
  by (simp add: cleanupRoom_def)

lemma players_cleanupRoom [simp]:
  "players (heap (cleanupRoom r w) i) = (if i = r then [] else players (heap w i))"
  by (simp add: cleanupRoom_def)

lemma status_removePlayer:
  "status (heap (removePlayer r p w) i) = status (heap w i) \<or>
   (status (heap w i) = Playing \<and> status (heap (removePlayer r p w) i) = Finished)"
  by (simp add: removePlayer_def Let_def)

lemma players_removePlayer:
  "set (players (heap (removePlayer r p w) i)) \<subseteq> set (players (heap w i))"
  by (auto simp: removePlayer_def Let_def)

lemma status_addPlayer: "addPlayer r p w = Inr w' \<Longrightarrow> status (heap w' i) = status (heap w i)"
  by (auto simp: addPlayer_def split: if_splits)

lemma players_addPlayer:
  "addPlayer r p w = Inr w' \<Longrightarrow> i \<noteq> r \<Longrightarrow> players (heap w' i) = players (heap w i)"
  by (auto simp: addPlayer_def split: if_splits)

lemma status_startNewRound:
  "startNewRound r k w = Inr w' \<Longrightarrow> status (heap w' i) = status (heap w i)"
  by (auto simp: startNewRound_def Let_def split: option.splits prod.splits)

lemma players_startNewRound:
  "startNewRound r k w = Inr w' \<Longrightarrow> players (heap w' i) = players (heap w i)"
  by (auto simp: startNewRound_def Let_def split: option.splits prod.splits)

lemma status_startGame:
  "startGame r k w = Inr (b, w') \<Longrightarrow>
   status (heap w' i) = status (heap w i) \<or>
   (status (heap w i) = Waiting \<and> status (heap w' i) = Playing)"
  by (auto simp: startGame_def Let_def split: if_splits sum.splits dest!: status_startNewRound [where i = i])

lemma players_startGame:
  "startGame r k w = Inr (b, w') \<Longrightarrow> players (heap w' i) = players (heap w i)"
  by (auto simp: startGame_def Let_def split: if_splits sum.splits dest!: players_startNewRound [where i = i])

lemma status_resetGame [simp]:
  "status (heap (resetGame r w) i) = (if i = r then Waiting else status (heap w i))"
  by (simp add: resetGame_def Let_def)

lemma players_resetGame [simp]: "players (heap (resetGame r w) i) = players (heap w i)"
  by (simp add: resetGame_def Let_def)

lemma status_endRound: "endRound r w = Inr w' \<Longrightarrow> status (heap w' i) = status (heap w i)"
  by (auto simp: endRound_def split: option.splits)

lemma players_endRound: "endRound r w = Inr w' \<Longrightarrow> players (heap w' i) = players (heap w i)"
  by (auto simp: endRound_def split: option.splits)

lemma status_timerTick: "timerTick r w = Inr w' \<Longrightarrow> status (heap w' i) = status (heap w i)"
  by (auto simp: timerTick_def Let_def split: option.splits if_splits
      dest!: status_endRound [where i = i])

lemma players_timerTick: "timerTick r w = Inr w' \<Longrightarrow> players (heap w' i) = players (heap w i)"
  by (auto simp: timerTick_def Let_def split: option.splits if_splits
      dest!: players_endRound [where i = i])

lemma status_roundTimeout:
  "roundTimeout r k w = Inr w' \<Longrightarrow> status (heap w' i) = status (heap w i)"
  by (auto simp: roundTimeout_def split: if_splits dest!: status_startNewRound [where i = i])

lemma players_roundTimeout:
  "roundTimeout r k w = Inr w' \<Longrightarrow> players (heap w' i) = players (heap w i)"
  by (auto simp: roundTimeout_def split: if_splits dest!: players_startNewRound [where i = i])

lemma status_checkForWinner:
  "checkForWinner r w = Inr w' \<Longrightarrow> status (heap w r) = Playing \<Longrightarrow>
   status (heap w' i) = status (heap w i) \<or>
   (status (heap w i) = Playing \<and> status (heap w' i) = Finished)"
  by (auto simp: checkForWinner_def Let_def split: option.splits if_splits prod.splits)

lemma players_checkForWinner:
  "checkForWinner r w = Inr w' \<Longrightarrow> players (heap w' i) = players (heap w i)"
  by (auto simp: checkForWinner_def Let_def split: option.splits if_splits prod.splits)

lemma status_handleGuess:
  "handleGuess r p g w = Inr w' \<Longrightarrow>
   status (heap w' i) = status (heap w i) \<or>
   (status (heap w i) = Playing \<and> status (heap w' i) = Finished)"
  by (auto simp: handleGuess_def Let_def split: option.splits if_splits sum.splits
      dest!: status_checkForWinner [where i = i])

lemma players_handleGuess:
  "handleGuess r p g w = Inr w' \<Longrightarrow> players (heap w' i) = players (heap w i)"
  by (auto simp: handleGuess_def Let_def split: option.splits if_splits sum.splits
      dest!: players_checkForWinner [where i = i])

lemma status_updateCanvas [simp]: "status (heap (updateCanvas r d w) i) = status (heap w i)"
  by (simp add: updateCanvas_def split: option.splits)

lemma players_updateCanvas [simp]: "players (heap (updateCanvas r d w) i) = players (heap w i)"
  by (simp add: updateCanvas_def split: option.splits)

lemmas example_defs = exampleWorld_def exampleLobby_def exampleTrio_def exampleLastSecond_def
  exampleSpaced_def exampleRoom_def exampleRound_def emptyRoom_def
  exampleWords_def

lemmas model_defs = removePlayer_def endGameDueToInsufficientPlayers_def
  broadcastGlobalRoomListUpdate_def getAvailableRooms_def cleanupRoom_def cleanupState_def
  handleResetGame_def resetGame_def handleSendMessage_def handleGuess_def checkForWinner_def
  startNewRound_def getRandomWord_def wordsFor_def roundTimeout_def timerTick_def endRound_def
  startGame_def newGameState_def handleStartGame_def handleJoinRoom_def addPlayer_def waitingRooms_def
  toLowerCase_def toLowerChar_def trim_def isWhiteSpace_def Let_def char_of_eq_iff

subsection \<open>Events, rounds and guesses\<close>



lemma getRandomWord_fresh:
  "usedWords gs = [] \<Longrightarrow>
   usedWords (snd (getRandomWord wl lang k gs)) = [fst (getRandomWord wl lang k gs)]"
  by (simp add: getRandomWord_def Let_def)

lemma getRandomWord_others:
  "scores (snd (getRandomWord wl lang k gs)) = scores gs"
  "currentPlayerIndex (snd (getRandomWord wl lang k gs)) = currentPlayerIndex gs"
  "drawingPlayerId (snd (getRandomWord wl lang k gs)) = drawingPlayerId gs"
  by (simp_all add: getRandomWord_def Let_def)

lemma startNewRound_result:
  assumes "gameState (heap w r) = Some gs"
  shows "\<exists>w' gs'. startNewRound r k w = Inr w' \<and>
     heap w' r = (heap w r)\<lparr>gameState := Some gs', timerInterval := True\<rparr> \<and>
     (\<forall>i. i \<noteq> r \<longrightarrow> heap w' i = heap w i) \<and> rooms w' = rooms w \<and>
     scores gs' = scores gs \<and>
     currentPlayerIndex gs' = js_rem (js_add (currentPlayerIndex gs) 1) (length (players (heap w r))) \<and>
     drawingPlayerId gs' = js_index (players (heap w r)) (currentPlayerIndex gs') \<and>
     (usedWords gs = [] \<longrightarrow> usedWords gs' = [currentWord gs']) \<and>
     emitted w' = emitted w @
        map (\<lambda>p. (ToPlayer p, New_round (drawingPlayerId gs') (currentWord gs'))) (players (heap w r))"
  using assms
  by (auto simp: startNewRound_def Let_def getRandomWord_def split: prod.splits)








lemma map_of_addScore:
  "map_of (addScore p n xs) q =
     (if q = p then (case map_of xs p of None \<Rightarrow> Some NaN | Some s \<Rightarrow> Some (js_add s n))
      else map_of xs q)"
  by (induction xs) auto



subsection \<open>The sweep and \<^verbatim>\<open>cleanupRoom\<close>\<close>

text \<open>One visit of the sweep is a call of \<^verbatim>\<open>cleanupRoom\<close> on an empty registered room.\<close>

lemma sweepRooms_visit:
  "sweepRooms (i # ids) w =
     sweepRooms ids (if i \<in> set (rooms w) \<and> players (heap w i) = [] then cleanupRoom i w else w)"
  by (simp add: cleanupRoom_def broadcastGlobalRoomListUpdate_def getAvailableRooms_def Let_def)

subsection \<open>Registered rooms have members\<close>

lemma rooms_endGame:
  "set (rooms (endGameDueToInsufficientPlayers r w)) \<subseteq> set (rooms w)"
  unfolding endGameDueToInsufficientPlayers_def Let_def
  by (rule subset_trans [OF broadcastGlobal_rooms]) simp

lemma rooms_cleanupRoom: "set (rooms (cleanupRoom r w)) \<subseteq> set (rooms w)"
  unfolding cleanupRoom_def
  by (rule subset_trans [OF broadcastGlobal_rooms]) auto

lemma rooms_removePlayer: "set (rooms (removePlayer r p w)) \<subseteq> set (rooms w)"
proof (cases "p \<in> set (players (heap w r))")
  case False
  then show ?thesis by (simp add: removePlayer_def)
next
  case True
  have a: "set (rooms (endGameDueToInsufficientPlayers r v)) \<subseteq> set (rooms w)"
    "set (rooms (cleanupRoom r v)) \<subseteq> set (rooms w)"
    "set (rooms (broadcastGlobalRoomListUpdate v)) \<subseteq> set (rooms w)"
    if "rooms v = rooms w" for v
    using rooms_endGame [of r v] rooms_cleanupRoom [of r v] broadcastGlobal_rooms [of v] that
    by simp_all
  show ?thesis
    using True unfolding removePlayer_def Let_def
    by (simp add: a)
qed

lemma rooms_addPlayer: "addPlayer r p w = Inr w' \<Longrightarrow> rooms w' = rooms w"
  by (auto simp: addPlayer_def split: if_splits)

lemma rooms_startNewRound: "startNewRound r k w = Inr w' \<Longrightarrow> rooms w' = rooms w"
  by (auto simp: startNewRound_def Let_def split: option.splits prod.splits)

lemma rooms_startGame:
  assumes "startGame r k w = Inr (b, w')"
  shows "set (rooms w') \<subseteq> set (rooms w)"
proof (cases "status (heap w r) \<noteq> Waiting \<or> length (players (heap w r)) < 2")
  case True
  with assms show ?thesis by (simp add: startGame_def)
next
  case False
  with assms obtain w4 where
    s: "startNewRound r k (broadcastToRoom r (Game_started (newGameState (players (heap w r))))
        None (updRoom r (\<lambda>x. x\<lparr>gameState := Some (newGameState (players (heap w r)))\<rparr>)
        (setStatus r Playing w))) = Inr w4"
    and w': "w' = broadcastGlobalRoomListUpdate w4"
    by (auto simp: startGame_def Let_def split: sum.splits)
  from rooms_startNewRound [OF s] have "rooms w4 = rooms w" by simp
  with broadcastGlobal_rooms [of w4] w' show ?thesis by simp
qed

lemma rooms_resetGame: "set (rooms (resetGame r w)) \<subseteq> set (rooms w)"
  unfolding resetGame_def Let_def
  by (rule subset_trans [OF broadcastGlobal_rooms]) simp

lemma rooms_endRound: "endRound r w = Inr w' \<Longrightarrow> rooms w' = rooms w"
  by (auto simp: endRound_def split: option.splits)

lemma rooms_timerTick: "timerTick r w = Inr w' \<Longrightarrow> rooms w' = rooms w"
  by (auto simp: timerTick_def Let_def split: option.splits if_splits dest!: rooms_endRound)

lemma rooms_roundTimeout: "roundTimeout r k w = Inr w' \<Longrightarrow> rooms w' = rooms w"
  by (auto simp: roundTimeout_def split: if_splits dest!: rooms_startNewRound)

lemma rooms_checkForWinner:
  assumes "checkForWinner r w = Inr w'"
  shows "set (rooms w') \<subseteq> set (rooms w)"
proof -
  from assms obtain gs where gs: "gameState (heap w r) = Some gs"
    by (auto simp: checkForWinner_def split: option.splits)
  define w1 where "w1 =
     (case find (\<lambda>(playerId, score). js_ge score 1000) (scores gs) of
        None \<Rightarrow> w
      | Some (playerId, score) \<Rightarrow>
          if playerId \<in> set (players (heap w r)) then
            broadcastToRoom r (Chat_message (Won_the_game playerId score)) None
              (broadcastGlobalRoomListUpdate (clearTimer r (setStatus r Finished
                (broadcastToRoom r (Game_ended playerId score) None w))))
          else w)"
  have one: "set (rooms w1) \<subseteq> set (rooms w)"
  proof (cases "find (\<lambda>(playerId, score). js_ge score 1000) (scores gs)")
    case None
    then show ?thesis by (simp add: w1_def)
  next
    case (Some a)
    obtain q s where "a = (q, s)" by (cases a)
    with Some show ?thesis
      using broadcastGlobal_rooms [of "clearTimer r (setStatus r Finished
                (broadcastToRoom r (Game_ended q s) None w))"]
      by (simp add: w1_def)
  qed
  have "checkForWinner r w = Inr (if status (heap w1 r) = Playing \<and> length (players (heap w1 r)) \<le> 1
      then endGameDueToInsufficientPlayers r w1 else w1)"
    unfolding checkForWinner_def w1_def Let_def gs by simp
  with assms have "w' = (if status (heap w1 r) = Playing \<and> length (players (heap w1 r)) \<le> 1
      then endGameDueToInsufficientPlayers r w1 else w1)"
    by simp
  with one rooms_endGame [of r w1] show ?thesis by auto
qed

lemma rooms_handleGuess:
  assumes "handleGuess r p g w = Inr w'"
  shows "set (rooms w') \<subseteq> set (rooms w)"
  using assms
  by (auto simp: handleGuess_def Let_def split: if_splits option.splits sum.splits
      dest!: rooms_checkForWinner)

lemma rooms_updateCanvas [simp]: "rooms (updateCanvas r d w) = rooms w"
  by (simp add: updateCanvas_def split: option.splits)

lemma registryInvariantI:
  assumes "registryInvariant w" and "set (rooms w') \<subseteq> set (rooms w)"
    and "\<And>i. i \<in> set (rooms w') \<Longrightarrow> players (heap w i) \<noteq> [] \<Longrightarrow> players (heap w' i) \<noteq> []"
  shows "registryInvariant w'"
  using assms by (auto simp: registryInvariant_def list_all_iff)

lemma registryInvariant_removePlayer:
  assumes "registryInvariant w"
  shows "registryInvariant (removePlayer r p w)"
proof (cases "p \<in> set (players (heap w r))")
  case True
  then show ?thesis
    using removePlayer_no_empty [of p w r] by (auto simp: registryInvariant_def list_all_iff)
next
  case False
  with assms show ?thesis by (simp add: removePlayer_def)
qed

lemma step_registryInvariant:
  assumes inv: "registryInvariant w" and s: "step a w = Inr w'"
  shows "registryInvariant w'"
proof (cases a)
  case (JoinRoom roomId playerName newId)
  show ?thesis
  proof (rule registryInvariantI [OF inv])
    show "set (rooms w') \<subseteq> set (rooms w)"
      using s JoinRoom broadcastGlobal_rooms
      by (fastforce simp: handleJoinRoom_def split: option.splits if_splits sum.splits
          dest!: rooms_addPlayer)
    show "players (heap w' i) \<noteq> []" if "players (heap w i) \<noteq> []" for i
      using s JoinRoom that
      by (auto simp: handleJoinRoom_def addPlayer_def split: option.splits if_splits)
  qed
next
  case (StartGame cp k)
  show ?thesis
  proof (rule registryInvariantI [OF inv])
    show "set (rooms w') \<subseteq> set (rooms w)"
      using s StartGame
      by (auto simp: handleStartGame_def split: option.splits if_splits sum.splits prod.splits
          dest!: rooms_startGame)
    show "players (heap w' i) \<noteq> []" if "players (heap w i) \<noteq> []" for i
      using s StartGame that
      by (auto simp: handleStartGame_def split: option.splits if_splits sum.splits prod.splits
          dest!: players_startGame [where i = i])
  qed
next
  case (ResetGame cp)
  show ?thesis
  proof (rule registryInvariantI [OF inv])
    show "set (rooms w') \<subseteq> set (rooms w)"
      using s ResetGame rooms_resetGame
      by (auto simp: handleResetGame_def split: option.splits if_splits)
    show "players (heap w' i) \<noteq> []" if "players (heap w i) \<noteq> []" for i
      using s ResetGame that
      by (auto simp: handleResetGame_def split: option.splits if_splits)
  qed
next
  case (SendMessage cp message)
  show ?thesis
  proof (rule registryInvariantI [OF inv])
    show "set (rooms w') \<subseteq> set (rooms w)"
      using s SendMessage
      by (auto simp: handleSendMessage_def Let_def split: option.splits if_splits
          dest!: rooms_handleGuess)
    show "players (heap w' i) \<noteq> []" if "players (heap w i) \<noteq> []" for i
      using s SendMessage that
      by (auto simp: handleSendMessage_def Let_def split: option.splits if_splits
          dest!: players_handleGuess [where i = i])
  qed
next
  case (UpdateCanvas cp data)
  with s inv show ?thesis
    by (auto simp: handleUpdateCanvas_def registryInvariant_def split: option.splits if_splits)
next
  case (ClearCanvas cp)
  with s inv show ?thesis
    by (auto simp: handleClearCanvas_def handleUpdateCanvas_def registryInvariant_def
        split: option.splits if_splits)
next
  case GetRooms
  show ?thesis
  proof (rule registryInvariantI [OF inv])
    show "set (rooms w') \<subseteq> set (rooms w)"
      using s GetRooms sweepRooms_rooms [of "rooms w" w]
      by (auto simp: handleGetRooms_def getAvailableRooms_def Let_def)
    show "players (heap w' i) \<noteq> []" if "players (heap w i) \<noteq> []" for i
      using s GetRooms that sweepRooms_heap [of "rooms w" w i]
      by (auto simp: handleGetRooms_def getAvailableRooms_def Let_def)
  qed
next
  case (LeaveRoom cp)
  with s inv show ?thesis
    using registryInvariant_removePlayer [OF inv]
    by (auto simp: handleLeaveRoom_def registryInvariant_def emit_def split: option.splits if_splits)
next
  case (Disconnect cp)
  with s inv show ?thesis
    using registryInvariant_removePlayer [OF inv]
    by (auto simp: handleDisconnect_def split: option.splits if_splits)
next
  case (Tick r)
  with s have "rooms w' = rooms w" "\<And>i. players (heap w' i) = players (heap w i)"
    by (auto dest: rooms_timerTick players_timerTick)
  with inv show ?thesis by (simp add: registryInvariant_def)
next
  case (Timeout r k)
  with s have "rooms w' = rooms w" "\<And>i. players (heap w' i) = players (heap w i)"
    by (auto dest: rooms_roundTimeout players_roundTimeout)
  with inv show ?thesis by (simp add: registryInvariant_def)
qed

subsection \<open>Scores of roster members\<close>

lemma roomOK_tornDown: "roomOK (tornDown x)"
  by (simp add: roomOK_def tornDown_def)

lemma roomOK_broadcastGlobal:
  "roomOK (heap w i) \<Longrightarrow> roomOK (heap (broadcastGlobalRoomListUpdate w) i)"
  using broadcastGlobal_heap [of w i] by (auto simp: roomOK_tornDown)

lemma roomOK_sweepRooms: "roomOK (heap w i) \<Longrightarrow> roomOK (heap (sweepRooms ids w) i)"
  using sweepRooms_heap [of ids w i] by (auto simp: roomOK_tornDown)

lemma roomOK_no_round: "gameState x = None \<Longrightarrow> roomOK x"
  by (simp add: roomOK_def)

lemma roomOK_endGame:
  "roomOK (heap w i) \<Longrightarrow> roomOK (heap (endGameDueToInsufficientPlayers r w) i)"
  unfolding endGameDueToInsufficientPlayers_def Let_def
  by (rule roomOK_broadcastGlobal) (simp add: roomOK_def)

lemma roomOK_cleanupRoom: "roomOK (heap w i) \<Longrightarrow> roomOK (heap (cleanupRoom r w) i)"
  unfolding cleanupRoom_def
  by (rule roomOK_broadcastGlobal) (simp add: roomOK_def)

lemma roomOK_fewer_players:
  "roomOK x \<Longrightarrow> set ps \<subseteq> set (players x) \<Longrightarrow> roomOK (x\<lparr>players := ps\<rparr>)"
  by (auto simp: roomOK_def list_all_iff split: option.splits)

lemma roomOK_host [simp]: "roomOK (x\<lparr>host := h\<rparr>) = roomOK x"
  by (simp add: roomOK_def)

lemma roomOK_timerInterval [simp]: "roomOK (x\<lparr>timerInterval := b\<rparr>) = roomOK x"
  by (simp add: roomOK_def)

lemma roomOK_pendingRounds [simp]: "roomOK (x\<lparr>pendingRounds := n\<rparr>) = roomOK x"
  by (simp add: roomOK_def)

lemma roomOK_removePlayer:
  assumes "roomOK (heap w i)"
  shows "roomOK (heap (removePlayer r p w) i)"
proof (cases "p \<in> set (players (heap w r))")
  case False
  with assms show ?thesis by (simp add: removePlayer_def)
next
  case True
  have a: "roomOK (heap (endGameDueToInsufficientPlayers r v) i)"
    "roomOK (heap (cleanupRoom r v) i)"
    "roomOK (heap (broadcastGlobalRoomListUpdate v) i)"
    if "roomOK (heap v i)" for v
    using that by (simp_all add: roomOK_endGame roomOK_cleanupRoom roomOK_broadcastGlobal)
  have b: "roomOK ((heap w r)\<lparr>players := removeAll p (players (heap w r))\<rparr>)" if "i = r"
    using assms that by (intro roomOK_fewer_players) auto
  show ?thesis
    using True assms b unfolding removePlayer_def Let_def
    by (auto intro!: a)
qed

lemma roomOK_addPlayer:
  assumes "addPlayer r p w = Inr w'" and "roomOK (heap w i)" and "status (heap w r) = Waiting"
  shows "roomOK (heap w' i)"
  using assms by (auto simp: addPlayer_def roomOK_def split: if_splits)

lemma roomOK_startNewRound:
  assumes "startNewRound r k w = Inr w'" and "roomOK (heap w i)"
  shows "roomOK (heap w' i)"
proof -
  from assms(1) obtain gs where gs: "gameState (heap w r) = Some gs"
    by (auto simp: startNewRound_def split: option.splits)
  from startNewRound_result [OF gs, of k] assms(1) obtain gs' where
    h: "heap w' r = (heap w r)\<lparr>gameState := Some gs', timerInterval := True\<rparr>"
    and o: "\<forall>j. j \<noteq> r \<longrightarrow> heap w' j = heap w j" and sc: "scores gs' = scores gs"
    by auto
  show ?thesis
  proof (cases "i = r")
    case True
    with assms(2) gs h sc show ?thesis by (auto simp: roomOK_def)
  next
    case False
    with o assms(2) show ?thesis by simp
  qed
qed

lemma roomOK_startGame:
  assumes "startGame r k w = Inr (b, w')" and "roomOK (heap w i)"
  shows "roomOK (heap w' i)"
proof (cases "status (heap w r) \<noteq> Waiting \<or> length (players (heap w r)) < 2")
  case True
  with assms show ?thesis by (simp add: startGame_def)
next
  case False
  let ?w3 = "broadcastToRoom r (Game_started (newGameState (players (heap w r))))
        None (updRoom r (\<lambda>x. x\<lparr>gameState := Some (newGameState (players (heap w r)))\<rparr>)
        (setStatus r Playing w))"
  from False assms(1) obtain w4 where s: "startNewRound r k ?w3 = Inr w4"
    and w': "w' = broadcastGlobalRoomListUpdate w4"
    by (auto simp: startGame_def Let_def split: sum.splits)
  have "roomOK (heap ?w3 i)"
    using assms(2) by (auto simp: roomOK_def newGameState_def list_all_iff map_of_map_restrict)
  from roomOK_startNewRound [OF s this] show ?thesis
    unfolding w' by (rule roomOK_broadcastGlobal)
qed

lemma roomOK_resetGame: "roomOK (heap w i) \<Longrightarrow> roomOK (heap (resetGame r w) i)"
  unfolding resetGame_def Let_def
  by (rule roomOK_broadcastGlobal) (simp add: roomOK_def)

lemma roomOK_endRound: "endRound r w = Inr w' \<Longrightarrow> roomOK (heap w i) \<Longrightarrow> roomOK (heap w' i)"
  by (auto simp: endRound_def split: option.splits)

lemma roomOK_timerTick:
  "timerTick r w = Inr w' \<Longrightarrow> roomOK (heap w i) \<Longrightarrow> roomOK (heap w' i)"
  by (auto simp: timerTick_def Let_def roomOK_def endRound_def split: option.splits if_splits)

lemma roomOK_roundTimeout:
  assumes "roundTimeout r k w = Inr w'" and "roomOK (heap w i)"
  shows "roomOK (heap w' i)"
proof (cases "pendingRounds (heap w r) = 0")
  case True
  with assms show ?thesis by (simp add: roundTimeout_def)
next
  case False
  with assms(1) have s: "startNewRound r k
      (updRoom r (\<lambda>x. x\<lparr>pendingRounds := pendingRounds x - 1\<rparr>) w) = Inr w'"
    by (simp add: roundTimeout_def)
  from assms(2) show ?thesis by (intro roomOK_startNewRound [OF s]) auto
qed

lemma roomOK_status_Finished:
  "roomOK x \<Longrightarrow> status x \<noteq> Waiting \<Longrightarrow> roomOK (x\<lparr>status := Finished\<rparr>)"
  by (simp add: roomOK_def)

lemma roomOK_checkForWinner:
  assumes "checkForWinner r w = Inr w'" and "roomOK (heap w i)" and "status (heap w r) = Playing"
  shows "roomOK (heap w' i)"
proof -
  from assms(1) obtain gs where gs: "gameState (heap w r) = Some gs"
    by (auto simp: checkForWinner_def split: option.splits)
  define w1 where "w1 =
     (case find (\<lambda>(playerId, score). js_ge score 1000) (scores gs) of
        None \<Rightarrow> w
      | Some (playerId, score) \<Rightarrow>
          if playerId \<in> set (players (heap w r)) then
            broadcastToRoom r (Chat_message (Won_the_game playerId score)) None
              (broadcastGlobalRoomListUpdate (clearTimer r (setStatus r Finished
                (broadcastToRoom r (Game_ended playerId score) None w))))
          else w)"
  have one: "roomOK (heap w1 i)"
  proof (cases "find (\<lambda>(playerId, score). js_ge score 1000) (scores gs)")
    case None
    with assms(2) show ?thesis by (simp add: w1_def)
  next
    case (Some a)
    obtain q s where a: "a = (q, s)" by (cases a)
    have "roomOK (heap (clearTimer r (setStatus r Finished
                (broadcastToRoom r (Game_ended q s) None w))) i)"
      using assms(2,3) by (auto simp: roomOK_def)
    then have "roomOK (heap (broadcastGlobalRoomListUpdate (clearTimer r (setStatus r Finished
                (broadcastToRoom r (Game_ended q s) None w)))) i)"
      by (rule roomOK_broadcastGlobal)
    with Some a assms(2) show ?thesis by (simp add: w1_def)
  qed
  have "checkForWinner r w = Inr (if status (heap w1 r) = Playing \<and> length (players (heap w1 r)) \<le> 1
      then endGameDueToInsufficientPlayers r w1 else w1)"
    unfolding checkForWinner_def w1_def Let_def gs by simp
  with assms(1) have "w' = (if status (heap w1 r) = Playing \<and> length (players (heap w1 r)) \<le> 1
      then endGameDueToInsufficientPlayers r w1 else w1)"
    by simp
  with one show ?thesis by (simp add: roomOK_endGame)
qed

lemma numeric_addScore:
  assumes "\<exists>a. map_of xs q = Some (Num a)"
  shows "\<exists>a. map_of (addScore p n xs) q = Some (Num a)"
  using assms by (auto simp: map_of_addScore)

lemma roomOK_handleGuess:
  assumes "handleGuess r p g w = Inr w'" and "roomOK (heap w i)"
  shows "roomOK (heap w' i)"
proof (cases "w' = w")
  case True
  with assms show ?thesis by simp
next
  case False
  with assms(1) obtain gs d n m w3 where
    st: "status (heap w r) = Playing" and gs: "gameState (heap w r) = Some gs"
    and c: "checkForWinner r (broadcastToRoom r (Correct_guess p d n m) None
        (updRoom r (\<lambda>x. x\<lparr>gameState := Some (gs\<lparr>scores := addScore p n
           (addScore d m (scores gs))\<rparr>)\<rparr>) w)) = Inr w3"
    and w': "w' = scheduleNewRound r (clearTimer r w3)"
    by (auto simp: handleGuess_def Let_def split: if_splits option.splits sum.splits)
  let ?v = "broadcastToRoom r (Correct_guess p d n m) None
        (updRoom r (\<lambda>x. x\<lparr>gameState := Some (gs\<lparr>scores := addScore p n
           (addScore d m (scores gs))\<rparr>)\<rparr>) w)"
  have "roomOK (heap ?v i)"
    using assms(2) gs st by (auto simp: roomOK_def list_all_iff intro!: numeric_addScore)
  moreover have "status (heap ?v r) = Playing" using st by simp
  ultimately have "roomOK (heap w3 i)" by (rule roomOK_checkForWinner [OF c])
  then show ?thesis by (auto simp: w')
qed

lemma roomOK_updateCanvas: "roomOK (heap w i) \<Longrightarrow> roomOK (heap (updateCanvas r d w) i)"
  by (auto simp: updateCanvas_def roomOK_def split: option.splits)

text \<open>Every reaction of the server keeps the invariant of the scores.\<close>

lemma step_scoresInvariant:
  assumes inv: "scoresInvariant w" and s: "step a w = Inr w'"
  shows "scoresInvariant w'"
proof -
  have ok: "roomOK (heap w i)" for i using inv by (simp add: scoresInvariant_def)
  have "roomOK (heap w' i)" for i
  proof (cases a)
    case (JoinRoom roomId playerName newId)
    with s ok [of i] show ?thesis
      by (auto simp: handleJoinRoom_def split: option.splits if_splits sum.splits
          intro!: roomOK_broadcastGlobal dest: roomOK_addPlayer [where i = i])
  next
    case (StartGame cp k)
    with s ok [of i] show ?thesis
      by (auto simp: handleStartGame_def split: option.splits if_splits sum.splits prod.splits
          dest: roomOK_startGame [where i = i])
  next
    case (ResetGame cp)
    with s ok [of i] show ?thesis
      by (auto simp: handleResetGame_def roomOK_resetGame split: option.splits if_splits)
  next
    case (SendMessage cp message)
    with s ok [of i] show ?thesis
      by (auto simp: handleSendMessage_def Let_def split: option.splits if_splits
          dest: roomOK_handleGuess [where i = i])
  next
    case (UpdateCanvas cp data)
    with s ok [of i] show ?thesis
      by (auto simp: handleUpdateCanvas_def roomOK_updateCanvas split: option.splits if_splits)
  next
    case (ClearCanvas cp)
    with s ok [of i] show ?thesis
      by (auto simp: handleClearCanvas_def handleUpdateCanvas_def roomOK_updateCanvas
          split: option.splits if_splits)
  next
    case GetRooms
    with s ok [of i] show ?thesis
      by (auto simp: handleGetRooms_def getAvailableRooms_def Let_def roomOK_sweepRooms)
  next
    case (LeaveRoom cp)
    with s ok [of i] show ?thesis
      by (auto simp: handleLeaveRoom_def roomOK_removePlayer split: option.splits if_splits)
  next
    case (Disconnect cp)
    with s ok [of i] show ?thesis
      by (auto simp: handleDisconnect_def roomOK_removePlayer split: option.splits if_splits)
  next
    case (Tick r)
    with s ok [of i] show ?thesis by (auto dest: roomOK_timerTick)
  next
    case (Timeout r k)
    with s ok [of i] show ?thesis by (auto dest: roomOK_roundTimeout)
  qed
  then show ?thesis by (simp add: scoresInvariant_def)
qed

subsection \<open>The delayed continuation\<close>

text \<open>
  The continuation looks at neither the Round nor the status: without a Round it
  raises, and with a Round it announces a new round whatever the status is.
\<close>

lemma roundTimeout_without_round:
  assumes "0 < pendingRounds (heap w r)" and "gameState (heap w r) = None"
  shows "roundTimeout r k w = Inl TypeError"
  using assms by (simp add: roundTimeout_def startNewRound_def)

lemma roundTimeout_with_round:
  assumes "0 < pendingRounds (heap w r)" and "gameState (heap w r) = Some gs"
  shows "\<exists>w' gs'. roundTimeout r k w = Inr w' \<and> gameState (heap w' r) = Some gs' \<and>
     status (heap w' r) = status (heap w r) \<and> timerInterval (heap w' r) \<and>
     emitted w' = emitted w @
       map (\<lambda>p. (ToPlayer p, New_round (drawingPlayerId gs') (currentWord gs')))
         (players (heap w r))"
proof -
  let ?v = "updRoom r (\<lambda>x. x\<lparr>pendingRounds := pendingRounds x - 1\<rparr>) w"
  have g: "gameState (heap ?v r) = Some gs" using assms(2) by simp
  from startNewRound_result [OF g, of k] obtain w' gs' where
    s: "startNewRound r k ?v = Inr w'"
    and h: "heap w' r = (heap ?v r)\<lparr>gameState := Some gs', timerInterval := True\<rparr>"
    and e: "emitted w' = emitted ?v @
        map (\<lambda>p. (ToPlayer p, New_round (drawingPlayerId gs') (currentWord gs')))
          (players (heap ?v r))"
    by blast
  from assms(1) s have "roundTimeout r k w = Inr w'" by (simp add: roundTimeout_def)
  moreover from h have "gameState (heap w' r) = Some gs'" "status (heap w' r) = status (heap w r)"
    "timerInterval (heap w' r)"
    by simp_all
  moreover from e have "emitted w' = emitted w @
       map (\<lambda>p. (ToPlayer p, New_round (drawingPlayerId gs') (currentWord gs')))
         (players (heap w r))"
    by simp
  ultimately show ?thesis by blast
qed

text \<open>The example states satisfy both invariants.\<close>

lemma examples_registryInvariant:
  "registryInvariant exampleWorld" "registryInvariant exampleLobby"
  "registryInvariant exampleTrio" "registryInvariant exampleLastSecond"
  "registryInvariant exampleSpaced"
  by (simp_all add: registryInvariant_def example_defs)

lemma examples_scoresInvariant:
  "scoresInvariant exampleWorld" "scoresInvariant exampleLobby"
  "scoresInvariant exampleTrio" "scoresInvariant exampleLastSecond"
  "scoresInvariant exampleSpaced"
  by (simp_all add: scoresInvariant_def roomOK_def example_defs)

section \<open>C1: the winning guess\<close>

text \<open>
  Claim C1, evaluated on the code. In the example room player 10 draws \<open>cat\<close> with 25
  seconds left; the scores are 930 for player 10 and 950 for player 11. Player 11
  sends the guess \<open> Cat \<close>: the scores become 990 and 1000, \<^verbatim>\<open>game_ended\<close> names
  player 11 and the room is finished, as the claim says. But \<^verbatim>\<open>handleGuess\<close> has
  still scheduled the next round, and when that continuation comes due
  \<^verbatim>\<open>startNewRound\<close> sends \<^verbatim>\<open>new_round\<close> to both members of the finished room
  (in general: lemma \<open>roundTimeout_with_round\<close>).
\<close>

theorem new_round_after_game_ended:
  "step winningGuess exampleWorld = Inr afterWinningGuess \<and>
   status (heap afterWinningGuess 1) = Finished \<and>
   (ToPlayer 10, Game_ended 11 (Num 1000)) \<in> set (emitted afterWinningGuess) \<and>
   (ToPlayer 11, Game_ended 11 (Num 1000)) \<in> set (emitted afterWinningGuess) \<and>
   pendingRounds (heap afterWinningGuess 1) = 1 \<and>
   step (Timeout 1 0) afterWinningGuess = Inr (projr (step (Timeout 1 0) afterWinningGuess)) \<and>
   emitted (projr (step (Timeout 1 0) afterWinningGuess))
     = emitted afterWinningGuess @
       [(ToPlayer 10, New_round (Some 11) (Some ''dog'')),
        (ToPlayer 11, New_round (Some 11) (Some ''dog''))] \<and>
   status (heap (projr (step (Timeout 1 0) afterWinningGuess)) 1) = Finished"
  by (simp add: example_defs examplePlayer_def model_defs)

section \<open>C2: the lifecycle status\<close>

text \<open>
  Claim C2, as amended. In every reaction of the server the status of every room
  either stays as it is, or goes from waiting to playing (only by \<^verbatim>\<open>start_game\<close>), or
  goes to waiting from any status (only by \<^verbatim>\<open>reset_game\<close>), or goes from playing to
  finished. The claim also says that finished is terminal; \<^verbatim>\<open>resetGame\<close> assigns
  \<^verbatim>\<open>'waiting'\<close> without looking at the status, so a finished room that its host resets
  is waiting again.
\<close>

theorem status_transitions:
  assumes "step a w = Inr w'"
  shows "status (heap w' i) = status (heap w i)
       \<or> (status (heap w i) = Waiting \<and> status (heap w' i) = Playing \<and> (\<exists>cp k. a = StartGame cp k))
       \<or> (status (heap w' i) = Waiting \<and> (\<exists>cp. a = ResetGame cp))
       \<or> (status (heap w i) = Playing \<and> status (heap w' i) = Finished)"
proof (cases a)
  case (JoinRoom roomId playerName newId)
  with assms show ?thesis
    by (auto simp: handleJoinRoom_def split: option.splits if_splits sum.splits
        dest!: status_addPlayer [where i = i])
next
  case (StartGame cp k)
  with assms show ?thesis
    by (auto simp: handleStartGame_def split: option.splits if_splits sum.splits prod.splits
        dest!: status_startGame [where i = i])
next
  case (ResetGame cp)
  with assms show ?thesis
    by (auto simp: handleResetGame_def split: option.splits if_splits)
next
  case (SendMessage cp message)
  with assms show ?thesis
    by (auto simp: handleSendMessage_def Let_def split: option.splits if_splits
        dest!: status_handleGuess [where i = i])
next
  case (UpdateCanvas cp data)
  with assms show ?thesis
    by (auto simp: handleUpdateCanvas_def split: option.splits if_splits)
next
  case (ClearCanvas cp)
  with assms show ?thesis
    by (auto simp: handleClearCanvas_def handleUpdateCanvas_def split: option.splits if_splits)
next
  case GetRooms
  with assms show ?thesis
    using sweepRooms_heap [of "rooms w" w i]
    by (auto simp: handleGetRooms_def getAvailableRooms_def Let_def tornDown_def)
next
  case (LeaveRoom cp)
  with assms show ?thesis
    using status_removePlayer [of "player_room (the cp)" "player_id (the cp)" w i]
    by (auto simp: handleLeaveRoom_def split: option.splits if_splits)
next
  case (Disconnect cp)
  with assms show ?thesis
    using status_removePlayer [of "player_room (the cp)" "player_id (the cp)" w i]
    by (auto simp: handleDisconnect_def split: option.splits if_splits)
next
  case (Tick r)
  with assms show ?thesis
    by (auto dest!: status_timerTick [where i = i])
next
  case (Timeout r k)
  with assms show ?thesis
    by (auto dest!: status_roundTimeout [where i = i])
qed

text \<open>
  Claim C2 as stated fails: when one of two players leaves a running game the room is
  finished, and the host's \<^verbatim>\<open>reset_game\<close> then makes it waiting.
\<close>

theorem finished_room_reset_counterexample:
  "status (heap afterGameEndedEarly 1) = Finished \<and>
   step (ResetGame (Some (examplePlayer 10))) afterGameEndedEarly
     = Inr (handleResetGame (Some (examplePlayer 10)) afterGameEndedEarly) \<and>
   status (heap (handleResetGame (Some (examplePlayer 10)) afterGameEndedEarly) 1) = Waiting"
  by (simp add: example_defs examplePlayer_def model_defs)

text \<open>
  The status theorem at a concrete step: the winning guess of the example room takes it
  from playing to finished.
\<close>

theorem status_transitions_witness:
  "step winningGuess exampleWorld = Inr afterWinningGuess \<and>
   status (heap exampleWorld 1) = Playing \<and>
   status (heap afterWinningGuess 1) = Finished"
proof -
  have e: "step winningGuess exampleWorld = Inr afterWinningGuess"
    by (simp add: example_defs examplePlayer_def model_defs)
  have p: "status (heap exampleWorld 1) = Playing"
    by (simp add: example_defs)
  have n: "\<not> (\<exists>cp. winningGuess = ResetGame cp)"
    "status (heap afterWinningGuess 1) \<noteq> Playing"
    by (simp_all add: example_defs examplePlayer_def model_defs)
  from status_transitions [OF e, of 1] p n e show ?thesis by auto
qed

section \<open>C3: an empty room is deregistered\<close>

text \<open>
  Claim C3. Take a registry in which the room, if registered, has a member: every
  room is registered with its creator on the roster, and every reaction of the server
  keeps the registry so (lemma \<open>step_registryInvariant\<close>). After \<^verbatim>\<open>removePlayer\<close>, if the
  roster is empty then the room is not in the registry. In particular, when the only
  member of a room leaves, the roster is empty and the room is deregistered, whatever
  its status: a room that is playing is finished first and then swept by
  \<^verbatim>\<open>getAvailableRooms\<close>, any other room goes through \<^verbatim>\<open>cleanupRoom\<close>.
\<close>

theorem removePlayer_deregisters_empty_room:
  "((r \<in> set (rooms w) \<longrightarrow> players (heap w r) \<noteq> []) \<longrightarrow>
      players (heap (removePlayer r p w) r) = [] \<longrightarrow>
      r \<notin> set (rooms (removePlayer r p w))) \<and>
   (players (heap w r) = [p] \<longrightarrow>
      players (heap (removePlayer r p w) r) = [] \<and> r \<notin> set (rooms (removePlayer r p w)))"
proof -
  have a: "r \<notin> set (rooms (removePlayer r p w))"
    if inv: "r \<in> set (rooms w) \<longrightarrow> players (heap w r) \<noteq> []"
      and emp: "players (heap (removePlayer r p w) r) = []"
  proof (cases "p \<in> set (players (heap w r))")
    case True
    then show ?thesis using removePlayer_no_empty [of p w r r] emp by auto
  next
    case False
    then have "removePlayer r p w = w" by (simp add: removePlayer_def)
    with inv emp show ?thesis by auto
  qed
  have b: "players (heap (removePlayer r p w) r) = [] \<and> r \<notin> set (rooms (removePlayer r p w))"
    if one: "players (heap w r) = [p]"
  proof -
    from one have e: "players (heap (removePlayer r p w) r) = []"
      by (simp add: removePlayer_def Let_def)
    with one a show ?thesis by simp
  qed
  from a b show ?thesis by blast
qed

text \<open>
  The theorem at a concrete state: in the example room player 11 has left, which ended
  the game; then player 10, the last member, leaves a registered, finished room.
\<close>

theorem removePlayer_deregisters_empty_room_witness:
  "1 \<in> set (rooms afterGameEndedEarly) \<and>
   status (heap afterGameEndedEarly 1) = Finished \<and>
   players (heap afterGameEndedEarly 1) = [10] \<and>
   players (heap (removePlayer 1 10 afterGameEndedEarly) 1) = [] \<and>
   1 \<notin> set (rooms (removePlayer 1 10 afterGameEndedEarly))"
proof -
  have h: "1 \<in> set (rooms afterGameEndedEarly)"
    "status (heap afterGameEndedEarly 1) = Finished"
    "players (heap afterGameEndedEarly 1) = [10]"
    by (simp_all add: example_defs model_defs)
  from removePlayer_deregisters_empty_room [of 1 afterGameEndedEarly 10] h
  show ?thesis by simp
qed

section \<open>C4: the continuation after a round\<close>

text \<open>
  Claim C4, evaluated on the code. In the example room the countdown is at its last
  second: the tick ends the round and schedules the next one. The host resets the
  game before the delay has passed, which discards the Round. The continuation then
  calls \<^verbatim>\<open>startNewRound\<close> without a check, and \<^verbatim>\<open>this.gameState.currentPlayerIndex\<close>
  on \<^verbatim>\<open>null\<close> raises a \<^verbatim>\<open>TypeError\<close> (in general: lemma
  \<open>roundTimeout_without_round\<close>).
\<close>

theorem continuation_after_reset_raises:
  "step (Tick 1) exampleLastSecond = Inr afterLastTick \<and>
   (ToPlayer 11, Round_ended (Some ''cat'')) \<in> set (emitted afterLastTick) \<and>
   pendingRounds (heap afterLastTick 1) = 1 \<and>
   step (ResetGame (Some (examplePlayer 10))) afterLastTick = Inr afterReset \<and>
   gameState (heap afterReset 1) = None \<and>
   status (heap afterReset 1) = Waiting \<and>
   pendingRounds (heap afterReset 1) = 1 \<and>
   step (Timeout 1 0) afterReset = Inl TypeError"
  by (simp add: example_defs examplePlayer_def model_defs clearTimer_def)

section \<open>C5: judging a guess\<close>




section \<open>C6: scoring a correct guess\<close>




section \<open>C7: the rotation of the drawer\<close>




section \<open>C8: starting a game\<close>



section \<open>C9: word selection\<close>



section \<open>C10: no join into a running or finished game\<close>

text \<open>
  Claim C10. A \<^verbatim>\<open>join_room\<close> request that names a room whose status is not waiting
  only sends an error to the requesting socket: the registry, every room object
  (roster, host, game state) and everything else stay as they were. Consequently, in
  no reaction of the server does a room that is not waiting gain a roster member.
\<close>

theorem join_rejected_unless_waiting:
  "(status (heap w r) \<noteq> Waiting \<longrightarrow>
      (\<exists>msg. handleJoinRoom (Some r) playerName newId w
               = w\<lparr>emitted := emitted w @ [(ToCaller, Error_message msg)]\<rparr>)) \<and>
   (step a w = Inr w' \<longrightarrow> status (heap w i) \<noteq> Waiting \<longrightarrow>
      set (players (heap w' i)) \<subseteq> set (players (heap w i)))"
proof -
  have one: "\<exists>msg. handleJoinRoom (Some r) playerName newId w
               = w\<lparr>emitted := emitted w @ [(ToCaller, Error_message msg)]\<rparr>"
    if "status (heap w r) \<noteq> Waiting"
    using that by (auto simp: handleJoinRoom_def emit_def)
  have two: "set (players (heap w' i)) \<subseteq> set (players (heap w i))"
    if s: "step a w = Inr w'" and nw: "status (heap w i) \<noteq> Waiting"
  proof (cases a)
    case (JoinRoom roomId playerName newId)
    with s nw show ?thesis
      by (auto simp: handleJoinRoom_def split: option.splits if_splits sum.splits
          dest!: players_addPlayer [where i = i])
  next
    case (StartGame cp k)
    with s show ?thesis
      by (auto simp: handleStartGame_def split: option.splits if_splits sum.splits prod.splits
          dest!: players_startGame [where i = i])
  next
    case (ResetGame cp)
    with s show ?thesis
      by (auto simp: handleResetGame_def split: option.splits if_splits)
  next
    case (SendMessage cp message)
    with s show ?thesis
      by (auto simp: handleSendMessage_def Let_def split: option.splits if_splits
          dest!: players_handleGuess [where i = i])
  next
    case (UpdateCanvas cp data)
    with s show ?thesis
      by (auto simp: handleUpdateCanvas_def split: option.splits if_splits)
  next
    case (ClearCanvas cp)
    with s show ?thesis
      by (auto simp: handleClearCanvas_def handleUpdateCanvas_def split: option.splits if_splits)
  next
    case GetRooms
    with s show ?thesis
      using sweepRooms_heap [of "rooms w" w i]
      by (auto simp: handleGetRooms_def getAvailableRooms_def Let_def tornDown_def)
  next
    case (LeaveRoom cp)
    with s show ?thesis
      using players_removePlayer [of "player_room (the cp)" "player_id (the cp)" w i]
      by (auto simp: handleLeaveRoom_def split: option.splits if_splits)
  next
    case (Disconnect cp)
    with s show ?thesis
      using players_removePlayer [of "player_room (the cp)" "player_id (the cp)" w i]
      by (auto simp: handleDisconnect_def split: option.splits if_splits)
  next
    case (Tick r)
    with s show ?thesis
      by (auto dest!: players_timerTick [where i = i])
  next
    case (Timeout r k)
    with s show ?thesis
      by (auto dest!: players_roundTimeout [where i = i])
  qed
  from one two show ?thesis by blast
qed

text \<open>
  The theorem at a concrete step: a join request for the example room, which is
  playing, is answered with the error \<^verbatim>\<open>Game has already started\<close> and leaves the
  roster \<open>[10, 11]\<close>.
\<close>

theorem join_rejected_unless_waiting_witness:
  "status (heap exampleWorld 1) \<noteq> Waiting \<and>
   step (JoinRoom (Some 1) ''Eve'' 12) exampleWorld
     = Inr (exampleWorld\<lparr>emitted := [(ToCaller, Error_message ''Game has already started'')]\<rparr>) \<and>
   set (players (heap (exampleWorld\<lparr>emitted :=
         [(ToCaller, Error_message ''Game has already started'')]\<rparr>) 1)) \<subseteq> {10, 11}"
proof -
  have h: "status (heap exampleWorld 1) \<noteq> Waiting"
    by (simp add: example_defs)
  have e: "step (JoinRoom (Some 1) ''Eve'' 12) exampleWorld
     = Inr (exampleWorld\<lparr>emitted := [(ToCaller, Error_message ''Game has already started'')]\<rparr>)"
    by (simp add: example_defs handleJoinRoom_def emit_def)
  have p: "set (players (heap exampleWorld 1)) = {10, 11}"
    by (auto simp: example_defs)
  from join_rejected_unless_waiting [of exampleWorld 1 "''Eve''" 12
      "JoinRoom (Some 1) ''Eve'' 12" _ 1] h e p
  show ?thesis by simp
qed

end
